theory Spec2Isabelle
  imports Complex_Main "HOL-Library.Sublist" "HOL-Library.Product_Lexorder"
begin

section \<open>Python values used by the parser\<close>

text \<open>
  A Python \<open>str\<close> is a \<open>string\<close>; text outside ASCII stands as its UTF-8 bytes.
  A \<open>datetime\<close> and a duration in seconds are reals on one time axis. An
  \<open>Optional[t]\<close> is a \<open>t option\<close>, \<open>None\<close> for Python's \<open>None\<close>.
\<close>

type_synonym datetime = real

text \<open>\<open>s.startswith(p)\<close>, \<open>s.removeprefix(p)\<close> and \<open>p in s\<close> on strings.\<close>

definition startswith :: "string \<Rightarrow> string \<Rightarrow> bool" where
  "startswith s p = prefix p s"

definition removeprefix :: "string \<Rightarrow> string \<Rightarrow> string" where
  "removeprefix s p = (if prefix p s then drop (length p) s else s)"

fun str_in :: "string \<Rightarrow> string \<Rightarrow> bool" where
  "str_in p [] = (p = [])"
| "str_in p (c # cs) = (prefix p (c # cs) \<or> str_in p cs)"

text \<open>
  \<open>s.split(sep)[0]\<close> for a non-empty separator: the part of \<open>s\<close> before the first
  occurrence of \<open>sep\<close>, all of \<open>s\<close> when there is none.
\<close>

fun split_first :: "string \<Rightarrow> string \<Rightarrow> string" where
  "split_first sep [] = []"
| "split_first sep (c # cs) = (if prefix sep (c # cs) then [] else c # split_first sep cs)"

text \<open>\<open>str(x)\<close> of an optional string inside an f-string: \<open>None\<close> prints as its name.\<close>

definition fmt :: "string option \<Rightarrow> string" where
  "fmt x = (case x of None \<Rightarrow> ''None'' | Some s \<Rightarrow> s)"

text \<open>Truth value of an optional string and of an optional integer.\<close>

definition truthy_str :: "string option \<Rightarrow> bool" where
  "truthy_str x = (case x of None \<Rightarrow> False | Some s \<Rightarrow> s \<noteq> [])"

definition truthy_int :: "int option \<Rightarrow> bool" where
  "truthy_int x = (case x of None \<Rightarrow> False | Some n \<Rightarrow> n \<noteq> 0)"

section \<open>Rows of the database (models.py)\<close>

record telegram_link =
  tl_id :: string
  tl_link :: "string option"
  tl_link_raw :: "string option"
  tl_chat_id :: "int option"
  tl_closed_group_id :: "string option"
  tl_last_check_at :: "datetime option"
  tl_last_message_id :: "int option"
  tl_created_at :: datetime
  tl_updated_at :: datetime
  tl_invalid :: "bool option"
  tl_parser_account :: "string option"

record category =
  cat_id :: int
  cat_name :: string
  cat_global_search :: int

record category_telegram_link_link =
  ctl_category_id :: int
  ctl_telegram_link_id :: string

text \<open>
  A keyword row; \<open>kw_category_id\<close> is the foreign key, and \<open>keyword_row.category.id\<close>
  of the source reads the same number through the relationship.
\<close>

record keyword =
  kw_id :: string
  kw_keyword :: string
  kw_category_id :: int

text \<open>
  A stored message together with its rows of \<open>category_message\<close>: \<open>row_categories\<close> is
  the set of category ids linked to it. The primary key (a fresh uuid4) is left out.
\<close>

record message_row =
  row_text :: string
  row_date :: "datetime option"
  row_from_user_id :: "int option"
  row_from_username :: "string option"
  row_chat_id :: "int option"
  row_link :: "string option"
  row_created_at :: datetime
  row_categories :: "int set"

section \<open>Objects of the platform client\<close>

record user =
  u_id :: int
  u_username :: "string option"

record chat =
  c_id :: int
  c_title :: "string option"

record message =
  msg_id :: int
  msg_text :: "string option"
  msg_date :: "datetime option"
  msg_from_user :: "user option"
  msg_chat :: "chat option"
  msg_link :: string

text \<open>What \<open>extract_chat\<close> hands to the client: a handle or invite link, or a numeric id.\<close>

datatype chat_ref = ChatStr string | ChatInt int

text \<open>
  The exceptions the code distinguishes, all subclasses of \<open>Exception\<close>. \<open>FloodWait\<close>
  carries the number of seconds to wait.
\<close>

datatype error =
    UsernameInvalid
  | UsernameNotOccupied
  | ChannelInvalid
  | BadRequest
  | FloodWait int
  | AttributeError
  | OtherError string

section \<open>The libraries the parser calls\<close>

record chat_info =
  ci_id :: int
  ci_type :: string
  ci_is_accessible :: bool

text \<open>
  What the libraries answer, taken as given: Python's \<open>str.lower()\<close>, which
  lower-cases every cased letter of a text, the platform client (\<open>get_chat\<close>,
  \<open>join_chat\<close>, \<open>get_chat_history\<close> with its \<open>offset_id\<close> and \<open>limit\<close>, whose items are
  the messages it yields and, last, the exception it raises if it does), BeautifulSoup's
  \<open>.text\<close>, the TF-IDF cosine similarity of two texts (which raises on an empty
  vocabulary), the setting \<open>MAX_LEVEL_OF_DUPLICATE_SIMILARITY\<close>, the \<open>n\<close>-th value of
  \<open>random.random()\<close> and the order \<open>func.rand()\<close> gives a query.
\<close>

record platform =
  str_lower :: "string \<Rightarrow> string"
  get_chat :: "chat_ref \<Rightarrow> error + chat_info"
  join_chat :: "string \<Rightarrow> error option"
  get_chat_history :: "chat_ref \<Rightarrow> int \<Rightarrow> nat \<Rightarrow> (error + message) list"
  bs_text :: "string \<Rightarrow> string"
  cosine_similarity :: "string \<Rightarrow> string \<Rightarrow> error + real"
  max_level_of_duplicate_similarity :: real
  random01 :: "nat \<Rightarrow> real"
  db_rand_order :: "telegram_link list \<Rightarrow> telegram_link list"

section \<open>helpers.py\<close>

text \<open>
  \<open>find_message_categories\<close> after the keyword rows have been fetched: the loop over
  \<open>keyword_rows\<close> adds \<open>keyword_row.category.id\<close> when \<open>keyword_row.keyword in text_lowercase\<close>.
  Only the text is lower-cased, by \<open>text.lower()\<close>.
\<close>

fun categories_loop :: "string \<Rightarrow> keyword list \<Rightarrow> int set \<Rightarrow> int set" where
  "categories_loop text_lowercase [] categories = categories"
| "categories_loop text_lowercase (keyword_row # rest) categories =
     categories_loop text_lowercase rest
       (if str_in (kw_keyword keyword_row) text_lowercase
        then insert (kw_category_id keyword_row) categories else categories)"

definition match_categories :: "platform \<Rightarrow> string \<Rightarrow> keyword list \<Rightarrow> int set" where
  "match_categories env text keyword_rows =
     (if text = [] then {} else categories_loop (str_lower env text) keyword_rows {})"

definition extract_chat :: "telegram_link \<Rightarrow> chat_ref option" where
  "extract_chat telegram_link =
     (case tl_link telegram_link of
        None \<Rightarrow> None
      | Some l \<Rightarrow>
          if l = [] then None
          else if startswith l ''t.me/+'' then Some (ChatStr l)
          else if startswith l ''t.me/'' then Some (ChatStr (removeprefix l ''t.me/''))
          else (case tl_chat_id telegram_link of
                  Some i \<Rightarrow> Some (ChatInt i)
                | None \<Rightarrow> None))"

text \<open>The two literals of \<open>get_text_with_link\<close>, the Cyrillic and the emoji as UTF-8.\<close>

definition forwarded_from :: string where
  "forwarded_from =
     [CHR 0xD0, CHR 0x9F, CHR 0xD0, CHR 0xB5, CHR 0xD1, CHR 0x80, CHR 0xD0, CHR 0xB5,
      CHR 0xD1, CHR 0x81, CHR 0xD0, CHR 0xBB, CHR 0xD0, CHR 0xB0, CHR 0xD0, CHR 0xBD,
      CHR 0xD0, CHR 0xBE, CHR 0x20, CHR 0xD0, CHR 0xB8, CHR 0xD0, CHR 0xB7, CHR 0x20]"

definition pointing_hand :: string where
  "pointing_hand = [CHR 0xF0, CHR 0x9F, CHR 0x91, CHR 0x89]"

definition anchor_line :: "string \<Rightarrow> string option \<Rightarrow> string" where
  \<open>anchor_line link title =
     [CHR 0x0A, CHR 0x0A] @ ''<a href="'' @ link @ ''">'' @ forwarded_from @ fmt title @ ''</a>''\<close>

definition attribution_line :: "string \<Rightarrow> string" where
  "attribution_line username = [CHR 0x0A, CHR 0x0A] @ pointing_hand @ '' @'' @ username"

text \<open>
  \<open>get_text_with_link\<close>. \<open>message.text\<close> is a string where the function is called;
  \<open>message.chat.title\<close> on a message without chat raises \<open>AttributeError\<close>, and so does
  \<open>text +=\<close> when the text is \<open>None\<close> (a \<open>TypeError\<close> there, one error in the model).
\<close>

definition has_public_username :: "message \<Rightarrow> bool" where
  "has_public_username m =
     (case msg_from_user m of None \<Rightarrow> False | Some u \<Rightarrow> truthy_str (u_username u))"

definition get_text_with_link :: "message \<Rightarrow> error + string" where
  "get_text_with_link m =
     (case msg_text m of
        None \<Rightarrow> Inl AttributeError
      | Some text \<Rightarrow>
          (case msg_chat m of
             None \<Rightarrow> Inl AttributeError
           | Some c \<Rightarrow>
               (let text1 = text @ anchor_line (msg_link m) (c_title c)
                in case msg_from_user m of
                     None \<Rightarrow> Inr text1
                   | Some u \<Rightarrow>
                       if truthy_str (u_username u)
                       then Inr (text1 @ attribution_line (the (u_username u)))
                       else Inr text1)))"

section \<open>The state of the program\<close>

text \<open>
  An \<open>alru_cache\<close> holds, oldest use first, the key, the result and the time the entry
  expires. The state of the program: the clock, the tables, the two caches and the number
  of random draws made. The clock moves at the sleeps; database calls do not fail.
\<close>

type_synonym ('k, 'v) alru = "('k \<times> 'v \<times> datetime) list"

record world =
  clock :: datetime
  db_telegram_links :: "telegram_link list"
  db_messages :: "message_row list"
  db_keywords :: "keyword list"
  db_categories :: "category list"
  db_category_telegram_link :: "category_telegram_link_link list"
  check_duplicate_cache :: "(string, bool) alru"
  get_keyword_rows_cache :: "(string, keyword list) alru"
  random_calls :: nat

text \<open>\<open>await asyncio.sleep(d)\<close>: a delay of zero or less returns at once.\<close>

definition sleep :: "real \<Rightarrow> world \<Rightarrow> world" where
  "sleep d w = w\<lparr>clock := clock w + max 0 d\<rparr>"

text \<open>\<open>random.uniform(a, b)\<close> is \<open>a + (b - a) * random()\<close>.\<close>

definition uniform :: "platform \<Rightarrow> real \<Rightarrow> real \<Rightarrow> world \<Rightarrow> real \<times> world" where
  "uniform env a b w =
     (a + (b - a) * random01 env (random_calls w), w\<lparr>random_calls := Suc (random_calls w)\<rparr>)"

text \<open>
  \<open>@alru_cache(ttl=...)\<close> of the library async_lru, with its default \<open>maxsize=128\<close>: a
  call whose key has an entry that has not expired returns the stored result without
  running the function and makes the entry the most recently used; any other call runs
  the function, stores the result for \<open>ttl\<close> seconds and, past 128 entries, drops the
  least recently used one.
\<close>

definition alru_cache ::
  "real \<Rightarrow> datetime \<Rightarrow> ('k \<Rightarrow> 'v) \<Rightarrow> 'k \<Rightarrow> ('k, 'v) alru \<Rightarrow> 'v \<times> ('k, 'v) alru" where
  "alru_cache ttl now f k cache =
     (let live = filter (\<lambda>e. now < snd (snd e)) cache
      in case map_of live k of
           Some (v, expires) \<Rightarrow> (v, filter (\<lambda>e. fst e \<noteq> k) live @ [(k, v, expires)])
         | None \<Rightarrow>
             (let v = f k; cache1 = live @ [(k, v, now + ttl)]
              in (v, if length cache1 > 128 then tl cache1 else cache1)))"

section \<open>database/operations.py\<close>

text \<open>
  The query of \<open>get_keyword_rows\<close>: keywords joined to their category and to the rows of
  \<open>category_telegram_link\<close> of that category, kept where the link row is the source's or
  the category is global, one row per keyword.
\<close>

definition keyword_rows_query :: "world \<Rightarrow> string \<Rightarrow> keyword list" where
  "keyword_rows_query w telegram_link_id =
     filter
       (\<lambda>k. list_ex
          (\<lambda>c. cat_id c = kw_category_id k \<and>
             list_ex
               (\<lambda>l. ctl_category_id l = cat_id c \<and>
                  (ctl_telegram_link_id l = telegram_link_id \<or> cat_global_search c = 1))
               (db_category_telegram_link w))
          (db_categories w))
       (db_keywords w)"

definition get_keyword_rows :: "string \<Rightarrow> world \<Rightarrow> keyword list \<times> world" where
  "get_keyword_rows telegram_link_id w =
     (let (rows, cache) =
            alru_cache 300 (clock w) (keyword_rows_query w) telegram_link_id
              (get_keyword_rows_cache w)
      in (rows, w\<lparr>get_keyword_rows_cache := cache\<rparr>))"

definition save_message ::
  "string \<Rightarrow> datetime option \<Rightarrow> int set \<Rightarrow> int option \<Rightarrow> string option \<Rightarrow> int option \<Rightarrow>
   string option \<Rightarrow> world \<Rightarrow> world" where
  "save_message text date categories from_user_id from_username chat_id link w =
     w\<lparr>db_messages := db_messages w @
        [\<lparr>row_text = text, row_date = date, row_from_user_id = from_user_id,
          row_from_username = from_username, row_chat_id = chat_id, row_link = link,
          row_created_at = clock w, row_categories = categories\<rparr>]\<rparr>"

text \<open>
  The sort key of \<open>get_tg_links\<close>: \<open>case((last_check_at == None, 1), else_=0)\<close>, then
  \<open>asc(last_check_at)\<close>; both ascending. Rows with equal keys keep the table's order.
\<close>

definition tg_link_order :: "telegram_link \<Rightarrow> nat \<times> datetime" where
  "tg_link_order l = (case tl_last_check_at l of None \<Rightarrow> (1, 0) | Some t \<Rightarrow> (0, t))"

definition get_tg_links ::
  "platform \<Rightarrow> bool \<Rightarrow> string option \<Rightarrow> world \<Rightarrow> telegram_link list" where
  "get_tg_links env exclude_unknown_chats session_name w =
     (if exclude_unknown_chats
      then take 30 (sort_key tg_link_order
             (filter
                (\<lambda>l. (tl_chat_id l \<noteq> None) = exclude_unknown_chats \<and>
                      (tl_parser_account l = session_name \<or> tl_parser_account l = None))
                (db_telegram_links w)))
      else take 1 (db_rand_order env
             (filter
                (\<lambda>l. tl_chat_id l = None \<and>
                      (tl_parser_account l = session_name \<or> tl_parser_account l = None) \<and>
                      (tl_invalid l = Some False \<or> tl_invalid l = None))
                (db_telegram_links w))))"

text \<open>
  \<open>check_duplicate\<close>. \<open>True\<close> lets the message through; \<open>False\<close> is what the caller
  logs as a duplicate. The function below is the body; the decorator comes after it.
\<close>

definition anchor_open :: string where
  \<open>anchor_open = ''<a href="''\<close>

fun duplicate_loop :: "platform \<Rightarrow> string \<Rightarrow> string list \<Rightarrow> error + bool" where
  "duplicate_loop env text [] = Inr True"
| "duplicate_loop env text (sent_text # rest) =
     (case cosine_similarity env text (bs_text env (split_first anchor_open sent_text)) of
        Inl e \<Rightarrow> Inl e
      | Inr similarity \<Rightarrow>
          if similarity \<ge> max_level_of_duplicate_similarity env then Inr False
          else duplicate_loop env text rest)"

definition check_duplicate_body :: "platform \<Rightarrow> world \<Rightarrow> string \<Rightarrow> bool" where
  "check_duplicate_body env w text =
     (if text = [] then True
      else
        (let text1 = bs_text env (split_first anchor_open text);
             yesterday = clock w - 86400;
             messages_texts =
               map row_text (filter (\<lambda>m. row_created_at m > yesterday) (db_messages w))
         in case duplicate_loop env text1 messages_texts of
              Inl e \<Rightarrow> True
            | Inr verdict \<Rightarrow> verdict))"

definition check_duplicate :: "platform \<Rightarrow> string \<Rightarrow> world \<Rightarrow> bool \<times> world" where
  "check_duplicate env text w =
     (let (verdict, cache) =
            alru_cache 300 (clock w) (check_duplicate_body env w) text (check_duplicate_cache w)
      in (verdict, w\<lparr>check_duplicate_cache := cache\<rparr>))"

text \<open>
  \<open>session.merge(telegram_link)\<close> and \<open>commit\<close>: the row with the object's primary key
  takes the object's state; there is a new row when no row has that key.
\<close>

definition merge :: "telegram_link \<Rightarrow> telegram_link list \<Rightarrow> telegram_link list" where
  "merge l table =
     (if list_ex (\<lambda>r. tl_id r = tl_id l) table
      then map (\<lambda>r. if tl_id r = tl_id l then l else r) table
      else table @ [l])"

definition save_chat_id ::
  "telegram_link \<Rightarrow> int \<Rightarrow> string option \<Rightarrow> world \<Rightarrow> telegram_link \<times> world" where
  "save_chat_id telegram_link chat_id session_name w =
     (if truthy_int (tl_chat_id telegram_link) then (telegram_link, w)
      else
        (let l = telegram_link\<lparr>tl_chat_id := Some chat_id, tl_parser_account := session_name\<rparr>
         in (l, w\<lparr>db_telegram_links := merge l (db_telegram_links w)\<rparr>)))"

definition update_telegram_link_last_check ::
  "telegram_link \<Rightarrow> datetime \<Rightarrow> int \<Rightarrow> world \<Rightarrow> telegram_link \<times> world" where
  "update_telegram_link_last_check telegram_link last_check_at last_message_id w =
     (let l = telegram_link\<lparr>tl_last_check_at := Some last_check_at,
                             tl_last_message_id := Some last_message_id\<rparr>
      in (l, w\<lparr>db_telegram_links := merge l (db_telegram_links w)\<rparr>))"

text \<open>
  Calling an \<open>async def\<close> function without \<open>await\<close> builds a coroutine object and
  runs none of its body; the object is dropped.
\<close>

definition never_awaited :: "(world \<Rightarrow> 'a \<times> world) \<Rightarrow> world \<Rightarrow> world" where
  "never_awaited coroutine w = w"

section \<open>main.py\<close>

definition MAX_MESSAGES_PER_CHAT :: int where "MAX_MESSAGES_PER_CHAT = 300"
definition MIN_DELAY :: real where "MIN_DELAY = 1"
definition MAX_DELAY :: real where "MAX_DELAY = 5"

record parser_stats =
  stats_session_name :: string
  exclude_unknown_chats :: bool
  message_count :: int
  chats_count :: int
  relevant_messages :: int
  start_time :: datetime

text \<open>
  A function that may raise returns the exception, if any, first; the state it returns
  is the state at the raise. \<open>_save_relevant_message\<close>: the message object itself is
  always true in the guard.
\<close>

definition save_relevant_message ::
  "message \<Rightarrow> string \<Rightarrow> int set \<Rightarrow> world \<Rightarrow> error option \<times> world" where
  "save_relevant_message m text_with_link categories w =
     (if text_with_link = [] \<or> categories = {} then (None, w)
      else
        (case msg_chat m of
           None \<Rightarrow> (Some AttributeError, w)
         | Some c \<Rightarrow>
             (None,
              save_message text_with_link (msg_date m) categories
                (case msg_from_user m of None \<Rightarrow> None | Some u \<Rightarrow> Some (u_id u))
                (case msg_from_user m of None \<Rightarrow> None | Some u \<Rightarrow> u_username u)
                (Some (c_id c)) (Some (msg_link m)) w)))"

definition find_message_categories ::
  "platform \<Rightarrow> string \<Rightarrow> telegram_link \<Rightarrow> world \<Rightarrow> int set \<times> world" where
  "find_message_categories env text telegram_link w =
     (let (keyword_rows, w1) = get_keyword_rows (tl_id telegram_link) w
      in (match_categories env text keyword_rows, w1))"

definition process_message ::
  "platform \<Rightarrow> message \<Rightarrow> int \<Rightarrow> parser_stats \<Rightarrow> telegram_link \<Rightarrow> world \<Rightarrow>
   error option \<times> int option \<times> parser_stats \<times> world" where
  "process_message env m chat_id stats telegram_link w =
     (case msg_text m of
        None \<Rightarrow> (None, None, stats, w)
      | Some text \<Rightarrow>
          if text = [] then (None, None, stats, w)
          else
            (let (verdict, w1) = check_duplicate env text w
             in if \<not> verdict then (None, None, stats, w1)
                else
                  (let (categories, w2) = find_message_categories env text telegram_link w1
                   in if categories = {} then (None, Some (msg_id m), stats, w2)
                      else
                        (case get_text_with_link m of
                           Inl e \<Rightarrow> (None, Some (msg_id m), stats, w2)
                         | Inr text_with_link \<Rightarrow>
                             (case save_relevant_message m text_with_link categories w2 of
                                (Some e, w3) \<Rightarrow> (Some e, None, stats, w3)
                              | (None, w3) \<Rightarrow>
                                  (None, Some (msg_id m),
                                   stats\<lparr>relevant_messages := relevant_messages stats + 1\<rparr>,
                                   w3))))))"

text \<open>
  \<open>_get_chat_messages\<close>: what the generator yields. Every exception inside it, of the
  deferred \<open>get_chat\<close> of an invite link as of \<open>get_chat_history\<close>, is caught and logged
  there, and the generator ends.
\<close>

definition truthy_chat :: "chat_ref \<Rightarrow> bool" where
  "truthy_chat chat = (case chat of ChatStr s \<Rightarrow> s \<noteq> [] | ChatInt i \<Rightarrow> i \<noteq> 0)"

fun yielded :: "(error + message) list \<Rightarrow> message list" where
  "yielded [] = []"
| "yielded (Inl e # rest) = []"
| "yielded (Inr m # rest) = m # yielded rest"

definition get_chat_messages :: "platform \<Rightarrow> chat_ref \<Rightarrow> int \<Rightarrow> message list" where
  "get_chat_messages env chat min_id =
     (if \<not> truthy_chat chat then []
      else
        (case chat of
           ChatStr s \<Rightarrow>
             if startswith s ''t.me/+''
             then (case get_chat env chat of
                     Inl e \<Rightarrow> []
                   | Inr chat_info \<Rightarrow>
                       yielded (get_chat_history env (ChatInt (ci_id chat_info)) min_id 100))
             else yielded (get_chat_history env chat min_id 100)
         | ChatInt i \<Rightarrow> yielded (get_chat_history env chat min_id 100)))"

text \<open>The local variables of \<open>process_chat\<close> that its loop changes, and the state.\<close>

record poll_state =
  messages_in_chat :: int
  max_id :: int
  ps_link :: telegram_link
  ps_stats :: parser_stats
  ps_world :: world

text \<open>The body of the \<open>async for\<close> loop after the check of the message limit.\<close>

definition chat_step ::
  "platform \<Rightarrow> string \<Rightarrow> message \<Rightarrow> poll_state \<Rightarrow> error option \<times> poll_state" where
  "chat_step env session_name m s =
     (case msg_chat m of
        None \<Rightarrow> (Some AttributeError, s)
      | Some c \<Rightarrow>
          (let (link1, w1) = save_chat_id (ps_link s) (c_id c) (Some session_name) (ps_world s);
               stats1 = (ps_stats s)\<lparr>message_count := message_count (ps_stats s) + 1\<rparr>
           in case process_message env m (c_id c) stats1 link1 w1 of
                (Some e, new_max_id, stats2, w2) \<Rightarrow>
                  (Some e, s\<lparr>ps_link := link1, ps_stats := stats2, ps_world := w2\<rparr>)
              | (None, new_max_id, stats2, w2) \<Rightarrow>
                  (let s1 = (if truthy_int new_max_id
                             then s\<lparr>max_id := max (the new_max_id) (max_id s),
                                    ps_link := link1\<lparr>tl_last_check_at := Some (clock w2)\<rparr>\<rparr>
                             else s\<lparr>ps_link := link1\<rparr>);
                       (delay, w3) = uniform env MIN_DELAY MAX_DELAY w2
                   in (None, s1\<lparr>ps_stats := stats2, ps_world := sleep delay w3\<rparr>))))"

fun chat_loop ::
  "platform \<Rightarrow> string \<Rightarrow> message list \<Rightarrow> poll_state \<Rightarrow> error option \<times> poll_state" where
  "chat_loop env session_name [] s = (None, s)"
| "chat_loop env session_name (m # rest) s =
     (let s1 = s\<lparr>messages_in_chat := messages_in_chat s + 1\<rparr>
      in if messages_in_chat s1 > MAX_MESSAGES_PER_CHAT then (None, s1)
         else
           (case chat_step env session_name m s1 of
              (Some e, s2) \<Rightarrow> (Some e, s2)
            | (None, s2) \<Rightarrow> chat_loop env session_name rest s2))"

text \<open>
  The \<open>try\<close> block of \<open>process_chat\<close>: \<open>None\<close> when it ends or returns, the exception
  when one leaves it.
\<close>

definition poll_try ::
  "platform \<Rightarrow> string \<Rightarrow> chat_ref \<Rightarrow> poll_state \<Rightarrow> error option \<times> poll_state" where
  "poll_try env session_name chat s =
     (case get_chat env chat of
        Inl e \<Rightarrow>
          if e = UsernameInvalid \<or> e = UsernameNotOccupied \<or> e = ChannelInvalid then (None, s)
          else if e = BadRequest then (None, s)
          else (Some e, s)
      | Inr chat_info \<Rightarrow>
          if ci_type chat_info \<in> set [''group'', ''supergroup'', ''channel''] \<and>
             \<not> ci_is_accessible chat_info
          then
            (case tl_link (ps_link s) of
               None \<Rightarrow> (Some AttributeError, s)
             | Some l \<Rightarrow>
                 if startswith l ''t.me/+''
                 then (case join_chat env l of
                         Some e \<Rightarrow> (Some e, s)
                       | None \<Rightarrow>
                           chat_loop env session_name (get_chat_messages env chat (max_id s)) s)
                 else (None, s))
          else chat_loop env session_name (get_chat_messages env chat (max_id s)) s)"

text \<open>
  What \<open>process_chat\<close> leaves: the exception it lets out, if any, the link object, the
  statistics and the state; and the arguments \<open>last_check_at\<close> and \<open>max_id\<close> of the
  call of \<open>update_telegram_link_last_check\<close> in its \<open>finally\<close> clause, when it got there.
\<close>

record poll_result =
  pr_raised :: "error option"
  pr_link :: telegram_link
  pr_stats :: parser_stats
  pr_world :: world
  pr_finally :: "(datetime \<times> int) option"

definition process_chat ::
  "platform \<Rightarrow> string \<Rightarrow> telegram_link \<Rightarrow> parser_stats \<Rightarrow> world \<Rightarrow> poll_result" where
  "process_chat env session_name telegram_link stats w =
     (case extract_chat telegram_link of
        None \<Rightarrow>
          \<lparr>pr_raised = None, pr_link = telegram_link, pr_stats = stats, pr_world = w,
           pr_finally = None\<rparr>
      | Some chat \<Rightarrow>
          if \<not> truthy_chat chat
          then \<lparr>pr_raised = None, pr_link = telegram_link, pr_stats = stats, pr_world = w,
                pr_finally = None\<rparr>
          else
            (let start = \<lparr>messages_in_chat = 0,
                          max_id = (case tl_last_message_id telegram_link of
                                      None \<Rightarrow> 0 | Some n \<Rightarrow> n),
                          ps_link = telegram_link, ps_stats = stats, ps_world = w\<rparr>;
                 last_check_at = clock w;
                 (raised, s) = poll_try env session_name chat start;
                 w1 = (case raised of
                         Some (FloodWait v) \<Rightarrow> sleep (real_of_int v) (ps_world s)
                       | _ \<Rightarrow> ps_world s)
             in \<lparr>pr_raised = None, pr_link = ps_link s, pr_stats = ps_stats s,
                 pr_world =
                   never_awaited
                     (update_telegram_link_last_check (ps_link s) last_check_at (max_id s)) w1,
                 pr_finally = Some (last_check_at, max_id s)\<rparr>))"






section \<open>Concrete inputs\<close>

text \<open>
  A source with a bound chat id, whose stored cursor is 10; one keyword, \<open>sale\<close>, of
  category 7, which is linked to the source; a supergroup whose history holds two
  messages with the same text. The texts of the concrete inputs are ASCII, and on
  ASCII \<open>str.lower()\<close> sends the letters A to Z to a to z and keeps every other
  character. Similarity is 1 for two texts that are equal up to line breaks at the end
  (the same words) and 0 otherwise, against the default threshold; every random delay
  is 3 seconds.
\<close>

definition shop_link :: telegram_link where
  "shop_link =
     \<lparr>tl_id = ''L1'', tl_link = Some ''t.me/shop'', tl_link_raw = None,
      tl_chat_id = Some (- 1001), tl_closed_group_id = None, tl_last_check_at = Some 500,
      tl_last_message_id = Some 10, tl_created_at = 0, tl_updated_at = 0,
      tl_invalid = None, tl_parser_account = None\<rparr>"

definition sale_keyword :: keyword where
  "sale_keyword = \<lparr>kw_id = ''K1'', kw_keyword = ''sale'', kw_category_id = 7\<rparr>"

definition shop_world :: world where
  "shop_world =
     \<lparr>clock = 1000, db_telegram_links = [shop_link], db_messages = [],
      db_keywords = [sale_keyword],
      db_categories = [\<lparr>cat_id = 7, cat_name = ''offers'', cat_global_search = 0\<rparr>],
      db_category_telegram_link = [\<lparr>ctl_category_id = 7, ctl_telegram_link_id = ''L1''\<rparr>],
      check_duplicate_cache = [], get_keyword_rows_cache = [], random_calls = 0\<rparr>"

definition shop_chat :: chat where
  "shop_chat = \<lparr>c_id = - 1001, c_title = Some ''Shop''\<rparr>"

definition sale_message :: "int \<Rightarrow> message" where
  "sale_message i =
     \<lparr>msg_id = i, msg_text = Some ''Big SALE today'', msg_date = Some 900,
      msg_from_user = Some \<lparr>u_id = 5, u_username = Some ''ann''\<rparr>,
      msg_chat = Some shop_chat, msg_link = ''https://t.me/shop/1''\<rparr>"

definition hello_message :: message where
  "hello_message =
     \<lparr>msg_id = 43, msg_text = Some ''hello world'', msg_date = Some 950,
      msg_from_user = None, msg_chat = Some shop_chat, msg_link = ''https://t.me/shop/43''\<rparr>"

definition ascii_lower_char :: "char \<Rightarrow> char" where
  "ascii_lower_char c =
     (let n = (of_char c :: nat) in if 65 \<le> n \<and> n \<le> 90 then char_of (n + 32) else c)"

definition ascii_lower :: "string \<Rightarrow> string" where
  "ascii_lower s = map ascii_lower_char s"

definition strip_line_ends :: "string \<Rightarrow> string" where
  "strip_line_ends s = rev (dropWhile (\<lambda>c. c = CHR 0x0A) (rev s))"

definition shop_platform :: platform where
  "shop_platform =
     \<lparr>str_lower = ascii_lower,
      get_chat = (\<lambda>c. Inr \<lparr>ci_id = - 1001, ci_type = ''supergroup'', ci_is_accessible = True\<rparr>),
      join_chat = (\<lambda>l. None),
      get_chat_history = (\<lambda>c offset_id limit. [Inr (sale_message 42), Inr (sale_message 41)]),
      bs_text = (\<lambda>t. t),
      cosine_similarity =
        (\<lambda>a b. Inr (if strip_line_ends a = strip_line_ends b then 1 else 0)),
      max_level_of_duplicate_similarity = 7 / 10,
      random01 = (\<lambda>n. 1 / 2),
      db_rand_order = (\<lambda>rows. rows)\<rparr>"

definition stats0 :: parser_stats where
  "stats0 =
     \<lparr>stats_session_name = ''worker'', exclude_unknown_chats = True, message_count = 0,
      chats_count = 0, relevant_messages = 0, start_time = 1000\<rparr>"


text \<open>A source whose chat id column holds 0, and the table with that row.\<close>

definition zero_link :: telegram_link where
  "zero_link = shop_link\<lparr>tl_chat_id := Some 0\<rparr>"

definition zero_world :: world where
  "zero_world = shop_world\<lparr>db_telegram_links := [zero_link]\<rparr>"

text \<open>A source that has never been polled, first in the table, before the polled one.\<close>

definition fresh_link :: telegram_link where
  "fresh_link =
     \<lparr>tl_id = ''L2'', tl_link = Some ''t.me/fresh'', tl_link_raw = None,
      tl_chat_id = Some (- 1002), tl_closed_group_id = None, tl_last_check_at = None,
      tl_last_message_id = None, tl_created_at = 0, tl_updated_at = 0,
      tl_invalid = None, tl_parser_account = Some ''worker''\<rparr>"

definition two_links_world :: world where
  "two_links_world = shop_world\<lparr>db_telegram_links := [fresh_link, shop_link]\<rparr>"

text \<open>
  A third source, polled later than the first one; and a table with the never-polled
  source in front of thirty rows of the polled one.
\<close>

definition late_link :: telegram_link where
  "late_link = shop_link\<lparr>tl_id := ''L3'', tl_link := Some ''t.me/late'', tl_last_check_at := Some 700\<rparr>"

definition three_links_world :: world where
  "three_links_world = shop_world\<lparr>db_telegram_links := [fresh_link, late_link, shop_link]\<rparr>"

definition crowded_world :: world where
  "crowded_world = shop_world\<lparr>db_telegram_links := fresh_link # replicate 30 shop_link\<rparr>"

text \<open>The state with a message of the same text stored ten seconds ago.\<close>

definition stocked_world :: world where
  "stocked_world =
     shop_world\<lparr>db_messages :=
       [\<lparr>row_text = ''Big SALE today'' @ anchor_line ''https://t.me/shop/1'' (Some ''Shop''),
         row_date = Some 900, row_from_user_id = None, row_from_username = None,
         row_chat_id = Some (- 1001), row_link = Some ''https://t.me/shop/1'',
         row_created_at = 990, row_categories = {7}\<rparr>]\<rparr>"

definition shop_state :: "world \<Rightarrow> poll_state" where
  "shop_state w =
     \<lparr>messages_in_chat = 1, max_id = 10, ps_link = shop_link, ps_stats = stats0, ps_world = w\<rparr>"





section \<open>Strings and the categorizer\<close>



text \<open>
  The cache decorator: a result computed at a miss is the answer to every call with
  the same key during the next \<open>ttl\<close> seconds.
\<close>

lemma alru_cache_miss_then_hit:
  assumes miss: "map_of (filter (\<lambda>e. now < snd (snd e)) cache) k = None"
    and later: "now \<le> now'" "now' < now + ttl"
  shows "fst (alru_cache ttl now' g k (snd (alru_cache ttl now f k cache))) = f k"
proof -
  define live where "live = filter (\<lambda>e. now < snd (snd e)) cache"
  define entry where "entry = (k, f k, now + ttl)"
  define cache1 where "cache1 = live @ [entry]"
  define cache2 where "cache2 = (if length cache1 > 128 then tl cache1 else cache1)"
  have c2: "snd (alru_cache ttl now f k cache) = cache2"
    using miss by (simp add: alru_cache_def Let_def live_def cache1_def cache2_def entry_def)
  obtain pre where pre: "cache2 = pre @ [entry]" and sub: "set pre \<subseteq> set live"
  proof (cases "length cache1 > 128")
    case False
    then have "cache2 = live @ [entry]" by (simp add: cache2_def cache1_def)
    then show ?thesis using that by blast
  next
    case True
    then obtain x xs where l: "live = x # xs" by (cases live) (auto simp: cache1_def)
    then have "cache2 = xs @ [entry]" using True by (simp add: cache2_def cache1_def)
    then show ?thesis using that [of xs] l by auto
  qed
  have nokey: "k \<notin> fst ` set live"
    using miss by (simp add: live_def map_of_eq_None_iff)
  define live' where "live' = filter (\<lambda>e. now' < snd (snd e)) cache2"
  have l': "live' = filter (\<lambda>e. now' < snd (snd e)) pre @ [entry]"
    using later(2) by (simp add: live'_def pre entry_def)
  have "k \<notin> fst ` set (filter (\<lambda>e. now' < snd (snd e)) pre)"
    using nokey sub by auto
  then have "map_of (filter (\<lambda>e. now' < snd (snd e)) pre) k = None"
    by (simp add: map_of_eq_None_iff)
  then have "map_of live' k = Some (f k, now + ttl)"
    by (simp add: l' map_add_def entry_def)
  then show ?thesis
    unfolding c2 by (simp add: alru_cache_def Let_def live'_def)
qed








section \<open>Binding the chat id\<close>

lemma merge_member: "l \<in> set (merge l table)"
  by (auto simp: merge_def list_ex_iff)

lemma merge_same_id: "r \<in> set (merge l table) \<Longrightarrow> tl_id r = tl_id l \<Longrightarrow> r = l"
  by (auto simp: merge_def list_ex_iff split: if_splits)

lemma replace_other_rows:
  "filter (\<lambda>r. tl_id r \<noteq> tl_id l) (map (\<lambda>r. if tl_id r = tl_id l then l else r) table) =
   filter (\<lambda>r. tl_id r \<noteq> tl_id l) table"
  by (induction table) auto

lemma merge_other_rows:
  "filter (\<lambda>r. tl_id r \<noteq> tl_id l) (merge l table) = filter (\<lambda>r. tl_id r \<noteq> tl_id l) table"
  by (simp add: merge_def replace_other_rows)

text \<open>
  Claim C9, as the code has it. \<open>save_chat_id\<close> tests the truth value of \<open>chat_id\<close>.
  For a source whose chat id is set and not 0 it returns the source and the state as
  they are. For a source whose chat id is null, or 0, it sets the chat id to the given
  value and the owning worker to the session name, and writes the row: the new object is
  in the table, it is the only row of that id, and the rows of other ids are as before.
  When the value bound is not 0, a further call changes nothing.
\<close>

theorem save_chat_id_binds_once:
  "((\<exists>n. tl_chat_id l = Some n \<and> n \<noteq> 0) \<longrightarrow> save_chat_id l c sn w = (l, w)) \<and>
   (tl_chat_id l = None \<or> tl_chat_id l = Some 0 \<longrightarrow>
      (\<exists>l' w'. save_chat_id l c sn w = (l', w') \<and>
         l' = l\<lparr>tl_chat_id := Some c, tl_parser_account := sn\<rparr> \<and>
         w' = w\<lparr>db_telegram_links := merge l' (db_telegram_links w)\<rparr> \<and>
         l' \<in> set (db_telegram_links w') \<and>
         (\<forall>r\<in>set (db_telegram_links w'). tl_id r = tl_id l \<longrightarrow> r = l') \<and>
         filter (\<lambda>r. tl_id r \<noteq> tl_id l) (db_telegram_links w') =
           filter (\<lambda>r. tl_id r \<noteq> tl_id l) (db_telegram_links w) \<and>
         (c \<noteq> 0 \<longrightarrow> save_chat_id l' c2 sn2 w' = (l', w'))))"
proof (intro conjI impI)
  assume "\<exists>n. tl_chat_id l = Some n \<and> n \<noteq> 0"
  then show "save_chat_id l c sn w = (l, w)"
    by (auto simp: save_chat_id_def truthy_int_def)
next
  assume a: "tl_chat_id l = None \<or> tl_chat_id l = Some 0"
  define l' where "l' = l\<lparr>tl_chat_id := Some c, tl_parser_account := sn\<rparr>"
  define w' where "w' = w\<lparr>db_telegram_links := merge l' (db_telegram_links w)\<rparr>"
  have id: "tl_id l' = tl_id l" by (simp add: l'_def)
  have s: "save_chat_id l c sn w = (l', w')"
    using a by (auto simp: save_chat_id_def truthy_int_def l'_def w'_def Let_def)
  have m: "l' \<in> set (db_telegram_links w')"
    by (simp add: w'_def merge_member)
  have u: "\<forall>r\<in>set (db_telegram_links w'). tl_id r = tl_id l \<longrightarrow> r = l'"
    using merge_same_id [of _ l' "db_telegram_links w"] id by (simp add: w'_def)
  have f: "filter (\<lambda>r. tl_id r \<noteq> tl_id l) (db_telegram_links w') =
           filter (\<lambda>r. tl_id r \<noteq> tl_id l) (db_telegram_links w)"
    using merge_other_rows [of l' "db_telegram_links w"] id by (simp add: w'_def)
  have n: "c \<noteq> 0 \<longrightarrow> save_chat_id l' c2 sn2 w' = (l', w')"
    by (simp add: save_chat_id_def truthy_int_def l'_def)
  show "\<exists>l' w'. save_chat_id l c sn w = (l', w') \<and>
         l' = l\<lparr>tl_chat_id := Some c, tl_parser_account := sn\<rparr> \<and>
         w' = w\<lparr>db_telegram_links := merge l' (db_telegram_links w)\<rparr> \<and>
         l' \<in> set (db_telegram_links w') \<and>
         (\<forall>r\<in>set (db_telegram_links w'). tl_id r = tl_id l \<longrightarrow> r = l') \<and>
         filter (\<lambda>r. tl_id r \<noteq> tl_id l) (db_telegram_links w') =
           filter (\<lambda>r. tl_id r \<noteq> tl_id l) (db_telegram_links w) \<and>
         (c \<noteq> 0 \<longrightarrow> save_chat_id l' c2 sn2 w' = (l', w'))"
    using s m u f n l'_def w'_def by blast
qed

text \<open>
  The concrete source has chat id \<open>-1001\<close> and is left alone; with the chat id
  taken away, the call binds 77 and the worker.
\<close>

theorem save_chat_id_binds_once_witness:
  "tl_chat_id shop_link = Some (- 1001) \<and>
   save_chat_id shop_link 77 (Some ''worker'') shop_world = (shop_link, shop_world) \<and>
   tl_chat_id (shop_link\<lparr>tl_chat_id := None\<rparr>) = None \<and>
   fst (save_chat_id (shop_link\<lparr>tl_chat_id := None\<rparr>) 77 (Some ''worker'') shop_world) =
     shop_link\<lparr>tl_chat_id := Some 77, tl_parser_account := Some ''worker''\<rparr>"
proof -
  have a: "tl_chat_id shop_link = Some (- 1001)" by (simp add: shop_link_def)
  have b: "tl_chat_id (shop_link\<lparr>tl_chat_id := None\<rparr>) = None" by simp
  show ?thesis
    using save_chat_id_binds_once [of shop_link 77 "Some ''worker''" shop_world]
      save_chat_id_binds_once [of "shop_link\<lparr>tl_chat_id := None\<rparr>" 77 "Some ''worker''" shop_world]
      a b by auto
qed

text \<open>
  C9 says that a source whose chat id is set is never touched. The source whose column
  holds 0 has it set, and the call rebinds it to 77, claims it for the worker and
  rewrites the row.
\<close>

theorem zero_chat_id_counterexample:
  "tl_chat_id zero_link = Some 0 \<and>
   tl_chat_id (fst (save_chat_id zero_link 77 (Some ''worker'') zero_world)) = Some 77 \<and>
   tl_parser_account zero_link = None \<and>
   tl_parser_account (fst (save_chat_id zero_link 77 (Some ''worker'') zero_world)) = Some ''worker'' \<and>
   map tl_chat_id (db_telegram_links zero_world) = [Some 0] \<and>
   map tl_chat_id (db_telegram_links (snd (save_chat_id zero_link 77 (Some ''worker'') zero_world)))
     = [Some 77]"
  by code_simp

section \<open>The duplicate check\<close>

lemma alru_cache_hit_value:
  assumes "\<forall>e\<in>set cache. fst e = k \<longrightarrow> fst (snd e) = f k"
  shows "fst (alru_cache ttl now f k cache) = f k"
proof (cases "map_of (filter (\<lambda>e. now < snd (snd e)) cache) k")
  case None
  then show ?thesis by (simp add: alru_cache_def Let_def)
next
  case (Some p)
  then have "(k, p) \<in> set cache" by (auto dest: map_of_SomeD)
  with assms have "fst p = f k" by fastforce
  with Some show ?thesis by (simp add: alru_cache_def Let_def split_beta)
qed

text \<open>
  Claim C5, as the code has it. \<open>process_message\<close> skips a message when
  \<open>check_duplicate\<close> returns \<open>False\<close>. On the empty text the body of \<open>check_duplicate\<close>
  returns \<open>True\<close>, the value that lets a message through, and so does the cached
  function whenever its cache holds no \<open>False\<close> for the empty text. A message without
  text never reaches the check: \<open>process_message\<close> returns \<open>None\<close> for it at once and
  changes nothing, so it is not stored.
\<close>

theorem empty_text_passes_the_check:
  "check_duplicate_body env w [] = True \<and>
   ((\<forall>e\<in>set (check_duplicate_cache w). fst e = [] \<longrightarrow> fst (snd e)) \<longrightarrow>
      fst (check_duplicate env [] w) = True) \<and>
   (msg_text m = None \<or> msg_text m = Some [] \<longrightarrow>
      process_message env m chat_id stats l w = (None, None, stats, w))"
proof (intro conjI impI)
  show b: "check_duplicate_body env w [] = True"
    by (simp add: check_duplicate_body_def)
  assume "\<forall>e\<in>set (check_duplicate_cache w). fst e = [] \<longrightarrow> fst (snd e)"
  then have "\<forall>e\<in>set (check_duplicate_cache w).
      fst e = [] \<longrightarrow> fst (snd e) = check_duplicate_body env w []"
    using b by simp
  then have "fst (alru_cache 300 (clock w) (check_duplicate_body env w) [] (check_duplicate_cache w))
      = check_duplicate_body env w []"
    by (rule alru_cache_hit_value)
  then show "fst (check_duplicate env [] w) = True"
    using b by (simp add: check_duplicate_def split_beta Let_def)
next
  assume "msg_text m = None \<or> msg_text m = Some []"
  then show "process_message env m chat_id stats l w = (None, None, stats, w)"
    by (auto simp: process_message_def)
qed

text \<open>On the concrete state, with its empty cache, and for a message of empty text.\<close>

theorem empty_text_passes_the_check_witness:
  "check_duplicate_body shop_platform shop_world [] = True \<and>
   fst (check_duplicate shop_platform [] shop_world) = True \<and>
   process_message shop_platform ((sale_message 42)\<lparr>msg_text := Some []\<rparr>) (- 1001) stats0
     shop_link shop_world = (None, None, stats0, shop_world)"
proof -
  have c: "check_duplicate_cache shop_world = []" by (simp add: shop_world_def)
  show ?thesis
    using empty_text_passes_the_check [of shop_platform shop_world
        "(sale_message 42)\<lparr>msg_text := Some []\<rparr>" "- 1001" stats0 shop_link] c
    by simp
qed

text \<open>
  C5 expects the verdict that makes the caller skip the message, which is \<open>False\<close>.
  The check answers \<open>True\<close> on the empty text, with an empty store and with a
  stocked one.
\<close>

theorem empty_text_counterexample:
  "fst (check_duplicate shop_platform [] shop_world) = True \<and>
   fst (check_duplicate shop_platform [] stocked_world) = True"
  by code_simp

section \<open>Selecting the sources\<close>

lemma sorted_take_drop:
  assumes "sorted (map f xs)" "y \<in> set (take n xs)" "x \<in> set (drop n xs)"
  shows "f y \<le> f x"
proof -
  have "sorted (map f (take n xs) @ map f (drop n xs))"
    using assms(1) by (simp flip: map_append)
  then show ?thesis using assms(2,3) by (auto simp: sorted_append)
qed

lemma tg_link_order_le:
  "tg_link_order a \<le> tg_link_order b \<longleftrightarrow>
     (case (tl_last_check_at a, tl_last_check_at b) of
        (None, None) \<Rightarrow> True | (None, Some t) \<Rightarrow> False
      | (Some s, None) \<Rightarrow> True | (Some s, Some t) \<Rightarrow> s \<le> t)"
  by (auto simp: tg_link_order_def less_eq_prod_def split: option.splits)

text \<open>
  Claim C6, as the code has it. With \<open>exclude_unknown_chats\<close> set, \<open>get_tg_links\<close>
  returns at most 30 sources, all of them rows with a chat id that are unclaimed or
  owned by this worker, as many as there are such rows up to 30. In the result the polled
  sources come first, by ascending time of their last poll, and the sources never polled
  come last: after a never-polled source only never-polled ones follow. A row left out
  is not before any selected row in that order.
\<close>

theorem get_tg_links_never_polled_last:
  assumes "r = get_tg_links env True sn w"
    and "eligible = filter (\<lambda>l. tl_chat_id l \<noteq> None \<and>
           (tl_parser_account l = sn \<or> tl_parser_account l = None)) (db_telegram_links w)"
  shows "length r \<le> 30 \<and> length r = min 30 (length eligible) \<and> set r \<subseteq> set eligible \<and>
    (\<forall>i j. i < j \<and> j < length r \<longrightarrow>
       (tl_last_check_at (r ! i) = None \<longrightarrow> tl_last_check_at (r ! j) = None) \<and>
       (\<forall>a b. tl_last_check_at (r ! i) = Some a \<and> tl_last_check_at (r ! j) = Some b \<longrightarrow> a \<le> b)) \<and>
    (\<forall>x\<in>set eligible. x \<notin> set r \<longrightarrow> (\<forall>y\<in>set r. tg_link_order y \<le> tg_link_order x))"
proof -
  define xs where "xs = sort_key tg_link_order eligible"
  have r: "r = take 30 xs"
    using assms by (simp add: get_tg_links_def xs_def)
  have srt: "sorted (map tg_link_order xs)" by (simp add: xs_def)
  have len: "length r = min 30 (length eligible)" by (simp add: r xs_def min.commute)
  have sub: "set r \<subseteq> set eligible"
    using set_take_subset [of 30 xs] by (simp add: r xs_def)
  have ord: "tg_link_order (r ! i) \<le> tg_link_order (r ! j)" if "i < j" "j < length r" for i j
  proof -
    have "sorted (take 30 (map tg_link_order xs))" using srt by (rule sorted_wrt_take)
    then have "sorted (map tg_link_order r)" by (simp add: r take_map)
    then show ?thesis using that by (simp add: sorted_iff_nth_mono)
  qed
  have pos: "(tl_last_check_at (r ! i) = None \<longrightarrow> tl_last_check_at (r ! j) = None) \<and>
       (\<forall>a b. tl_last_check_at (r ! i) = Some a \<and> tl_last_check_at (r ! j) = Some b \<longrightarrow> a \<le> b)"
    if "i < j" "j < length r" for i j
    using ord [OF that] by (auto simp: tg_link_order_le split: option.splits)
  have rest: "\<forall>y\<in>set r. tg_link_order y \<le> tg_link_order x" if "x \<in> set eligible" "x \<notin> set r" for x
  proof -
    have "x \<in> set xs" using that(1) by (simp add: xs_def)
    then have "x \<in> set (take 30 xs) \<union> set (drop 30 xs)"
      by (metis append_take_drop_id set_append)
    then have "x \<in> set (drop 30 xs)" using that(2) r by simp
    then show ?thesis using sorted_take_drop [OF srt] r by blast
  qed
  have len30: "length r \<le> 30" by (simp add: len)
  show ?thesis using len30 len sub pos rest by blast
qed

text \<open>
  With three sources the polled ones come out by time and the never-polled one last;
  with the never-polled source and thirty rows of a polled one, the thirty are taken and
  the never-polled source is left out.
\<close>

theorem get_tg_links_never_polled_last_witness:
  "get_tg_links shop_platform True (Some ''worker'') three_links_world =
     [shop_link, late_link, fresh_link] \<and>
   the (tl_last_check_at (get_tg_links shop_platform True (Some ''worker'') three_links_world ! 0))
     \<le> the (tl_last_check_at
           (get_tg_links shop_platform True (Some ''worker'') three_links_world ! 1)) \<and>
   tl_last_check_at (get_tg_links shop_platform True (Some ''worker'') three_links_world ! 2)
     = None \<and>
   length (get_tg_links shop_platform True (Some ''worker'') crowded_world) = 30 \<and>
   fresh_link \<notin> set (get_tg_links shop_platform True (Some ''worker'') crowded_world) \<and>
   tg_link_order shop_link \<le> tg_link_order fresh_link"
proof -
  define r where "r = get_tg_links shop_platform True (Some ''worker'') three_links_world"
  have r: "r = [shop_link, late_link, fresh_link]"
    unfolding r_def by code_simp
  note t = get_tg_links_never_polled_last [OF r_def refl]
  have ord: "\<forall>i j. i < j \<and> j < length r \<longrightarrow>
       (tl_last_check_at (r ! i) = None \<longrightarrow> tl_last_check_at (r ! j) = None) \<and>
       (\<forall>a b. tl_last_check_at (r ! i) = Some a \<and> tl_last_check_at (r ! j) = Some b \<longrightarrow> a \<le> b)"
    using t by blast
  have "(0::nat) < 1 \<and> 1 < length r" by (simp add: r)
  with ord have "\<forall>a b. tl_last_check_at (r ! 0) = Some a \<and>
      tl_last_check_at (r ! 1) = Some b \<longrightarrow> a \<le> b"
    by blast
  moreover have "tl_last_check_at (r ! 0) = Some 500" "tl_last_check_at (r ! 1) = Some 700"
    by (simp_all add: r shop_link_def late_link_def)
  ultimately have a: "the (tl_last_check_at (r ! 0)) \<le> the (tl_last_check_at (r ! 1))"
    by simp
  have b: "tl_last_check_at (r ! 2) = None" by (simp add: r fresh_link_def)
  define c where "c = get_tg_links shop_platform True (Some ''worker'') crowded_world"
  have c: "c = replicate 30 shop_link"
    unfolding c_def by code_simp
  have ne: "fresh_link \<noteq> shop_link" by (simp add: fresh_link_def shop_link_def)
  have out: "fresh_link \<notin> set c" using ne by (simp add: c)
  have el: "fresh_link \<in> set (filter (\<lambda>l. tl_chat_id l \<noteq> None \<and>
           (tl_parser_account l = Some ''worker'' \<or> tl_parser_account l = None))
           (db_telegram_links crowded_world))"
    by (simp add: crowded_world_def fresh_link_def)
  have "\<forall>y\<in>set c. tg_link_order y \<le> tg_link_order fresh_link"
    using get_tg_links_never_polled_last [OF c_def refl] el out by blast
  then have d: "tg_link_order shop_link \<le> tg_link_order fresh_link" by (simp add: c)
  have len: "length c = 30" by (simp add: c)
  show ?thesis using r a b len out d unfolding r_def c_def by simp
qed

text \<open>
  C6 puts the never-polled sources first. With a never-polled source and a polled one
  in the table, in that order, the polled one is selected first.
\<close>

theorem never_polled_last_counterexample:
  "get_tg_links shop_platform True (Some ''worker'') two_links_world = [shop_link, fresh_link] \<and>
   tl_last_check_at fresh_link = None \<and> tl_last_check_at shop_link = Some 500"
  by code_simp

section \<open>Processing one message\<close>

text \<open>
  The duplicate check and the categorizer only touch their caches.
\<close>

lemma check_duplicate_frame:
  "db_messages (snd (check_duplicate env t w)) = db_messages w \<and>
   db_telegram_links (snd (check_duplicate env t w)) = db_telegram_links w \<and>
   clock (snd (check_duplicate env t w)) = clock w"
  by (simp add: check_duplicate_def split_beta Let_def)

lemma find_message_categories_frame:
  "db_messages (snd (find_message_categories env t l w)) = db_messages w \<and>
   db_telegram_links (snd (find_message_categories env t l w)) = db_telegram_links w \<and>
   clock (snd (find_message_categories env t l w)) = clock w"
  by (simp add: find_message_categories_def get_keyword_rows_def split_beta Let_def)

text \<open>\<open>process_message\<close> written out along the results of the calls it makes.\<close>

lemma process_message_unfold:
  assumes "msg_text m = Some t" "t \<noteq> []"
    and "check_duplicate env t w = (verdict, w1)"
    and "find_message_categories env t l w1 = (cats, w2)"
  shows "process_message env m chat_id stats l w =
    (if \<not> verdict then (None, None, stats, w1)
     else if cats = {} then (None, Some (msg_id m), stats, w2)
     else (case get_text_with_link m of
             Inl e \<Rightarrow> (None, Some (msg_id m), stats, w2)
           | Inr twl \<Rightarrow>
               (case save_relevant_message m twl cats w2 of
                  (Some e, w3) \<Rightarrow> (Some e, None, stats, w3)
                | (None, w3) \<Rightarrow>
                    (None, Some (msg_id m),
                     stats\<lparr>relevant_messages := relevant_messages stats + 1\<rparr>, w3))))"
  using assms by (simp add: process_message_def)

lemma save_relevant_message_links:
  "db_telegram_links (snd (save_relevant_message m twl cats w)) = db_telegram_links w"
  by (simp add: save_relevant_message_def save_message_def split: option.splits)

lemma process_message_links:
  "db_telegram_links (snd (snd (snd (process_message env m chat_id stats l w)))) =
   db_telegram_links w"
proof (cases "msg_text m")
  case None
  then show ?thesis by (simp add: process_message_def)
next
  case (Some t)
  show ?thesis
  proof (cases "t = []")
    case True
    then show ?thesis using Some by (simp add: process_message_def)
  next
    case False
    obtain v w1 where cd: "check_duplicate env t w = (v, w1)" by force
    have w1: "db_telegram_links w1 = db_telegram_links w"
      using check_duplicate_frame [of env t w] cd by simp
    obtain cats w2 where fc: "find_message_categories env t l w1 = (cats, w2)" by force
    have w2: "db_telegram_links w2 = db_telegram_links w"
      using find_message_categories_frame [of env t l w1] fc w1 by simp
    have sr: "db_telegram_links w3 = db_telegram_links w"
      if "save_relevant_message m twl cats w2 = (e, w3)" for twl e w3
      using save_relevant_message_links [of m twl cats w2] w2 that by simp
    show ?thesis
      unfolding process_message_unfold [OF Some False cd fc]
      using w1 w2
      by (auto split: sum.splits prod.splits option.splits dest: sr)
  qed
qed

text \<open>
  The ways \<open>process_message\<close> can end: nothing stored, or one row more, holding
  the text \<open>get_text_with_link\<close> built.
\<close>

lemma process_message_cases:
  assumes "process_message env m chat_id stats l w = (raised, r, stats', w')"
  shows "(db_messages w' = db_messages w \<and> (r = None \<or> r = Some (msg_id m))) \<or>
         (\<exists>twl row. get_text_with_link m = Inr twl \<and> raised = None \<and> r = Some (msg_id m) \<and>
            db_messages w' = db_messages w @ [row] \<and> row_text row = twl \<and>
            row_categories row \<noteq> {})"
proof (cases "msg_text m")
  case None
  then show ?thesis using assms by (auto simp: process_message_def)
next
  case (Some t)
  show ?thesis
  proof (cases "t = []")
    case True
    then show ?thesis using assms Some by (auto simp: process_message_def)
  next
    case False
    obtain v w1 where cd: "check_duplicate env t w = (v, w1)" by force
    have w1: "db_messages w1 = db_messages w"
      using check_duplicate_frame [of env t w] cd by simp
    obtain cats w2 where fc: "find_message_categories env t l w1 = (cats, w2)" by force
    have w2: "db_messages w2 = db_messages w"
      using find_message_categories_frame [of env t l w1] fc w1 by simp
    show ?thesis
      using assms Some False cd fc w1 w2
      by (auto simp: process_message_def save_relevant_message_def save_message_def
          split: if_splits sum.splits option.splits prod.splits)
  qed
qed

lemma anchor_line_holds:
  "sublist link (anchor_line link title) \<and> sublist (fmt title) (anchor_line link title) \<and>
   anchor_line link title \<noteq> []"
proof -
  have "anchor_line link title = ([CHR 0x0A, CHR 0x0A] @ anchor_open) @ link @
      (''\">'' @ forwarded_from @ fmt title @ ''</a>'')"
    by (simp add: anchor_line_def anchor_open_def)
  then have a: "sublist link (anchor_line link title)"
    by (metis sublist_appendI)
  have "anchor_line link title = ([CHR 0x0A, CHR 0x0A] @ anchor_open @ link @ ''\">'' @
      forwarded_from) @ fmt title @ ''</a>''"
    by (simp add: anchor_line_def anchor_open_def)
  then have b: "sublist (fmt title) (anchor_line link title)"
    by (metis sublist_appendI)
  show ?thesis using a b by (simp add: anchor_line_def)
qed

lemma get_text_with_link_shape:
  assumes "get_text_with_link m = Inr twl"
  shows "\<exists>t c. msg_text m = Some t \<and> msg_chat m = Some c \<and>
    twl = t @ anchor_line (msg_link m) (c_title c) @
      (case msg_from_user m of
         None \<Rightarrow> []
       | Some u \<Rightarrow> (case u_username u of
                     None \<Rightarrow> [] | Some h \<Rightarrow> if h = [] then [] else attribution_line h))"
  using assms
  by (auto simp: get_text_with_link_def truthy_str_def Let_def
      split: option.splits if_splits)

text \<open>
  Claim C10. Whenever \<open>process_message\<close> stores a message, the stored text is the
  message text, then the anchor line, then the attribution line when the author has a
  public username and nothing otherwise. The message text is a proper prefix of the
  stored text. What follows it holds the opening of the anchor tag with the permalink
  and, when the chat has a title, the title before the closing tag (a chat without
  title is printed as \<open>None\<close>). When the author has a public username the stored text
  holds the handle and ends with \<open>@\<close> and the handle, the end of the attribution line;
  otherwise it ends with the closing tag of the anchor line.
\<close>

theorem stored_text_shape:
  assumes "process_message env m chat_id stats l w = (raised, r, stats', w')"
    and "db_messages w' \<noteq> db_messages w"
  shows "\<exists>t c row. msg_text m = Some t \<and> msg_chat m = Some c \<and>
    db_messages w' = db_messages w @ [row] \<and>
    row_text row = t @ anchor_line (msg_link m) (c_title c) @
      (case msg_from_user m of
         None \<Rightarrow> []
       | Some u \<Rightarrow> (case u_username u of
                     None \<Rightarrow> [] | Some h \<Rightarrow> if h = [] then [] else attribution_line h)) \<and>
    strict_prefix t (row_text row) \<and>
    sublist (msg_link m) (anchor_line (msg_link m) (c_title c)) \<and>
    sublist (fmt (c_title c)) (anchor_line (msg_link m) (c_title c)) \<and>
    (has_public_username m \<longleftrightarrow>
       (\<exists>u h. msg_from_user m = Some u \<and> u_username u = Some h \<and> h \<noteq> [] \<and>
          suffix (attribution_line h) (row_text row))) \<and>
    (\<not> has_public_username m \<longrightarrow> row_text row = t @ anchor_line (msg_link m) (c_title c)) \<and>
    sublist (msg_link m) (row_text row) \<and>
    sublist (anchor_open @ msg_link m) (drop (length t) (row_text row)) \<and>
    (\<forall>s. c_title c = Some s \<longrightarrow>
       sublist s (row_text row) \<and> sublist (s @ ''</a>'') (drop (length t) (row_text row))) \<and>
    (\<forall>u h. msg_from_user m = Some u \<and> u_username u = Some h \<and> h \<noteq> [] \<longrightarrow>
       sublist h (row_text row) \<and> suffix (''@'' @ h) (row_text row) \<and>
       sublist ([CHR 0x0A, CHR 0x0A] @ pointing_hand) (drop (length t) (row_text row))) \<and>
    (\<not> has_public_username m \<longrightarrow> suffix ''</a>'' (row_text row))"
proof -
  from process_message_cases [OF assms(1)] assms(2)
  obtain twl row where g: "get_text_with_link m = Inr twl"
    and rows: "db_messages w' = db_messages w @ [row]" and rt: "row_text row = twl"
    by auto
  from get_text_with_link_shape [OF g]
  obtain t c where t: "msg_text m = Some t" and c: "msg_chat m = Some c" by auto
  define sig where "sig = (case msg_from_user m of
         None \<Rightarrow> []
       | Some u \<Rightarrow> (case u_username u of
                     None \<Rightarrow> [] | Some h \<Rightarrow> if h = [] then [] else attribution_line h))"
  define nn where "nn = [CHR 0x0A, CHR 0x0A]"
  have twl: "twl = t @ anchor_line (msg_link m) (c_title c) @ sig"
    using get_text_with_link_shape [OF g] t c by (simp add: sig_def)
  note al = anchor_line_holds [of "msg_link m" "c_title c"]
  have sp: "strict_prefix t (row_text row)"
    using al by (auto simp: rt twl strict_prefix_def)
  have sigu: "sig = attribution_line h"
    if "msg_from_user m = Some u" "u_username u = Some h" "h \<noteq> []" for u h
    using that by (simp add: sig_def)
  have signo: "sig = []" if "\<not> has_public_username m"
    using that
    by (auto simp: has_public_username_def truthy_str_def sig_def split: option.splits)
  have iff: "has_public_username m \<longleftrightarrow>
       (\<exists>u h. msg_from_user m = Some u \<and> u_username u = Some h \<and> h \<noteq> [] \<and>
          suffix (attribution_line h) (row_text row))"
  proof
    assume "has_public_username m"
    then obtain u h where u: "msg_from_user m = Some u" "u_username u = Some h" "h \<noteq> []"
      by (auto simp: has_public_username_def truthy_str_def split: option.splits)
    then have "row_text row = (t @ anchor_line (msg_link m) (c_title c)) @ attribution_line h"
      by (simp add: rt twl sigu)
    then have "suffix (attribution_line h) (row_text row)"
      by (metis suffixI)
    with u show "\<exists>u h. msg_from_user m = Some u \<and> u_username u = Some h \<and> h \<noteq> [] \<and>
          suffix (attribution_line h) (row_text row)" by blast
  next
    assume "\<exists>u h. msg_from_user m = Some u \<and> u_username u = Some h \<and> h \<noteq> [] \<and>
          suffix (attribution_line h) (row_text row)"
    then show "has_public_username m"
      by (auto simp: has_public_username_def truthy_str_def)
  qed
  have no: "\<not> has_public_username m \<longrightarrow> row_text row = t @ anchor_line (msg_link m) (c_title c)"
    using signo by (simp add: rt twl)
  have dr: "drop (length t) (row_text row) = anchor_line (msg_link m) (c_title c) @ sig"
    by (simp add: rt twl)
  have lk: "sublist (msg_link m) (row_text row)"
  proof -
    have "row_text row = (t @ nn @ anchor_open) @ msg_link m @
        (''\">'' @ forwarded_from @ fmt (c_title c) @ ''</a>'' @ sig)"
      by (simp add: rt twl anchor_line_def anchor_open_def nn_def)
    then show ?thesis by (metis sublist_appendI)
  qed
  have tag: "sublist (anchor_open @ msg_link m) (drop (length t) (row_text row))"
  proof -
    have "drop (length t) (row_text row) = nn @ (anchor_open @ msg_link m) @
        (''\">'' @ forwarded_from @ fmt (c_title c) @ ''</a>'' @ sig)"
      by (simp add: dr anchor_line_def anchor_open_def nn_def)
    then show ?thesis by (metis sublist_appendI)
  qed
  have title: "sublist s (row_text row) \<and> sublist (s @ ''</a>'') (drop (length t) (row_text row))"
    if "c_title c = Some s" for s
  proof -
    have "row_text row = (t @ nn @ anchor_open @ msg_link m @ ''\">'' @ forwarded_from) @ s @
        (''</a>'' @ sig)"
      using that by (simp add: rt twl anchor_line_def anchor_open_def nn_def fmt_def)
    then have a: "sublist s (row_text row)" by (metis sublist_appendI)
    have "drop (length t) (row_text row) =
        (nn @ anchor_open @ msg_link m @ ''\">'' @ forwarded_from) @ (s @ ''</a>'') @ sig"
      using that by (simp add: dr anchor_line_def anchor_open_def nn_def fmt_def)
    then have "sublist (s @ ''</a>'') (drop (length t) (row_text row))"
      by (metis sublist_appendI)
    with a show ?thesis by simp
  qed
  have handle: "sublist h (row_text row) \<and> suffix (''@'' @ h) (row_text row) \<and>
       sublist ([CHR 0x0A, CHR 0x0A] @ pointing_hand) (drop (length t) (row_text row))"
    if "msg_from_user m = Some u \<and> u_username u = Some h \<and> h \<noteq> []" for u h
  proof -
    have sg: "sig = attribution_line h" using that sigu by blast
    have e: "row_text row =
        (t @ anchor_line (msg_link m) (c_title c) @ nn @ pointing_hand @ '' '') @ (''@'' @ h)"
      by (simp add: rt twl sg attribution_line_def nn_def)
    then have s1: "suffix (''@'' @ h) (row_text row)" by (metis suffixI)
    have "row_text row =
        (t @ anchor_line (msg_link m) (c_title c) @ nn @ pointing_hand @ '' @'') @ h @ []"
      by (simp add: rt twl sg attribution_line_def nn_def)
    then have s2: "sublist h (row_text row)" by (metis sublist_appendI)
    have "drop (length t) (row_text row) =
        anchor_line (msg_link m) (c_title c) @ (nn @ pointing_hand) @ ('' @'' @ h)"
      by (simp add: dr sg attribution_line_def nn_def)
    then have "sublist (nn @ pointing_hand) (drop (length t) (row_text row))"
      by (metis sublist_appendI)
    then show ?thesis using s1 s2 by (simp add: nn_def)
  qed
  have closing: "\<not> has_public_username m \<longrightarrow> suffix ''</a>'' (row_text row)"
  proof
    assume "\<not> has_public_username m"
    then have "row_text row = (t @ nn @ anchor_open @ msg_link m @ ''\">'' @ forwarded_from @
        fmt (c_title c)) @ ''</a>''"
      using signo by (simp add: rt twl anchor_line_def anchor_open_def nn_def)
    then show "suffix ''</a>'' (row_text row)" by (metis suffixI)
  qed
  show ?thesis
    using t c rows rt twl sp al iff no lk tag title handle closing unfolding sig_def by blast
qed

text \<open>
  The first message of the concrete chat is stored with its text in front; the stored
  text holds the permalink, the title \<open>Shop\<close> and the handle \<open>ann\<close>, and ends with
  \<open>@ann\<close>.
\<close>

theorem stored_text_shape_witness:
  "db_messages (snd (snd (snd (process_message shop_platform (sale_message 42) (- 1001) stats0
      shop_link shop_world)))) \<noteq> db_messages shop_world \<and>
   strict_prefix ''Big SALE today''
     (row_text (last (db_messages (snd (snd (snd (process_message shop_platform (sale_message 42)
        (- 1001) stats0 shop_link shop_world))))))) \<and>
   sublist ''https://t.me/shop/1''
     (row_text (last (db_messages (snd (snd (snd (process_message shop_platform (sale_message 42)
        (- 1001) stats0 shop_link shop_world))))))) \<and>
   sublist ''Shop''
     (row_text (last (db_messages (snd (snd (snd (process_message shop_platform (sale_message 42)
        (- 1001) stats0 shop_link shop_world))))))) \<and>
   sublist ''ann''
     (row_text (last (db_messages (snd (snd (snd (process_message shop_platform (sale_message 42)
        (- 1001) stats0 shop_link shop_world))))))) \<and>
   suffix ''@ann''
     (row_text (last (db_messages (snd (snd (snd (process_message shop_platform (sale_message 42)
        (- 1001) stats0 shop_link shop_world)))))))"
proof -
  define p where "p = process_message shop_platform (sale_message 42) (- 1001) stats0
      shop_link shop_world"
  have ne: "db_messages (snd (snd (snd p))) \<noteq> db_messages shop_world"
    unfolding p_def by code_simp
  have p: "p = (fst p, fst (snd p), fst (snd (snd p)), snd (snd (snd p)))" by simp
  have t: "msg_text (sale_message 42) = Some ''Big SALE today''"
    and u: "msg_from_user (sale_message 42) = Some \<lparr>u_id = 5, u_username = Some ''ann''\<rparr>"
    and k: "msg_link (sale_message 42) = ''https://t.me/shop/1''"
    and ch: "msg_chat (sale_message 42) = Some shop_chat"
    by (simp_all add: sale_message_def)
  from stored_text_shape [OF p [unfolded p_def] ne [unfolded p_def], folded p_def]
  obtain t c row where tt: "msg_text (sale_message 42) = Some t"
    and cc: "msg_chat (sale_message 42) = Some c"
    and rows: "db_messages (snd (snd (snd p))) = db_messages shop_world @ [row]"
    and sp: "strict_prefix t (row_text row)"
    and lk: "sublist (msg_link (sale_message 42)) (row_text row)"
    and ti: "\<forall>s. c_title c = Some s \<longrightarrow>
       sublist s (row_text row) \<and> sublist (s @ ''</a>'') (drop (length t) (row_text row))"
    and hd: "\<forall>u h. msg_from_user (sale_message 42) = Some u \<and> u_username u = Some h \<and> h \<noteq> [] \<longrightarrow>
       sublist h (row_text row) \<and> suffix (''@'' @ h) (row_text row) \<and>
       sublist ([CHR 0x0A, CHR 0x0A] @ pointing_hand) (drop (length t) (row_text row))"
    by blast
  have t': "t = ''Big SALE today''" using t tt by simp
  have c': "c_title c = Some ''Shop''" using ch cc by (simp add: shop_chat_def)
  have l: "last (db_messages (snd (snd (snd p)))) = row" using rows by simp
  have a: "sublist ''Shop'' (row_text row)" using ti c' by blast
  have "sublist ''ann'' (row_text row) \<and> suffix (''@'' @ ''ann'') (row_text row)"
    using hd u by auto
  then have b: "sublist ''ann'' (row_text row) \<and> suffix ''@ann'' (row_text row)" by simp
  show ?thesis using ne sp t' l lk k a b unfolding p_def by simp
qed

section \<open>The cache in front of the duplicate check\<close>

text \<open>
  The body of \<open>check_duplicate\<close> rejects a text when a message stored within the
  last 24 hours scores at or above the threshold and no score before it fails.
\<close>

lemma duplicate_loop_rejects:
  assumes "\<forall>s\<in>set texts. \<exists>v. cosine_similarity env t (bs_text env (split_first anchor_open s)) = Inr v"
    and "\<exists>s\<in>set texts. \<exists>v. cosine_similarity env t (bs_text env (split_first anchor_open s)) = Inr v \<and>
           max_level_of_duplicate_similarity env \<le> v"
  shows "duplicate_loop env t texts = Inr False"
  using assms
proof (induction texts)
  case Nil
  then show ?case by simp
next
  case (Cons s rest)
  obtain v where v: "cosine_similarity env t (bs_text env (split_first anchor_open s)) = Inr v"
    using Cons.prems(1) by auto
  show ?case
  proof (cases "max_level_of_duplicate_similarity env \<le> v")
    case True
    then show ?thesis using v by simp
  next
    case False
    then have "\<exists>s\<in>set rest. \<exists>v. cosine_similarity env t (bs_text env (split_first anchor_open s)) = Inr v \<and>
           max_level_of_duplicate_similarity env \<le> v"
      using Cons.prems(2) v by auto
    then have "duplicate_loop env t rest = Inr False"
      using Cons.IH Cons.prems(1) by simp
    then show ?thesis using v False by simp
  qed
qed

lemma check_duplicate_body_rejects:
  assumes "t \<noteq> []"
    and "\<forall>m\<in>set (db_messages w). \<exists>v.
           cosine_similarity env (bs_text env (split_first anchor_open t))
             (bs_text env (split_first anchor_open (row_text m))) = Inr v"
    and "m \<in> set (db_messages w)" and "clock w - 86400 < row_created_at m"
    and "cosine_similarity env (bs_text env (split_first anchor_open t))
           (bs_text env (split_first anchor_open (row_text m))) = Inr v"
    and "max_level_of_duplicate_similarity env \<le> v"
  shows "check_duplicate_body env w t = False"
proof -
  define texts where "texts = map row_text
      (filter (\<lambda>m. row_created_at m > clock w - 86400) (db_messages w))"
  have "duplicate_loop env (bs_text env (split_first anchor_open t)) texts = Inr False"
  proof (rule duplicate_loop_rejects)
    show "\<forall>s\<in>set texts. \<exists>v. cosine_similarity env (bs_text env (split_first anchor_open t))
        (bs_text env (split_first anchor_open s)) = Inr v"
      using assms(2) by (auto simp: texts_def)
    have "row_text m \<in> set texts" using assms(3,4) by (auto simp: texts_def)
    then show "\<exists>s\<in>set texts. \<exists>v. cosine_similarity env (bs_text env (split_first anchor_open t))
        (bs_text env (split_first anchor_open s)) = Inr v \<and> max_level_of_duplicate_similarity env \<le> v"
      using assms(5,6) by blast
  qed
  then show ?thesis using assms(1) by (simp add: check_duplicate_body_def texts_def Let_def)
qed

text \<open>
  A verdict computed at a miss is the answer to every call for the same text during
  the next 300 seconds, whatever has been stored in between.
\<close>

lemma cached_verdict_outlives_store:
  assumes "map_of (filter (\<lambda>e. clock w < snd (snd e)) (check_duplicate_cache w)) t = None"
    and "clock w \<le> now" and "now < clock w + 300"
  shows "fst (check_duplicate env t
           ((snd (check_duplicate env t w))\<lparr>clock := now, db_messages := rows\<rparr>)) =
         fst (check_duplicate env t w)"
proof -
  have a: "fst (check_duplicate env t w) = check_duplicate_body env w t"
    using assms(1) by (simp add: check_duplicate_def alru_cache_def Let_def split_beta)
  have "fst (alru_cache 300 now
          (check_duplicate_body env ((snd (check_duplicate env t w))\<lparr>clock := now, db_messages := rows\<rparr>))
          t (snd (alru_cache 300 (clock w) (check_duplicate_body env w) t (check_duplicate_cache w))))
        = check_duplicate_body env w t"
    using assms by (rule alru_cache_miss_then_hit)
  then show ?thesis
    using a by (simp add: check_duplicate_def split_beta Let_def)
qed

text \<open>
  Claim C3 on the concrete chat. The history yields two messages with the same text
  and the store is empty. The first message passes the check and is stored at time
  1000; the verdict \<open>True\<close> is cached until 1300. The second message is checked at
  time 1003, gets the cached verdict and is stored too: the store ends with two rows of
  the same stripped text, three seconds apart, although the body of the check, run on
  that state, rejects the text.
\<close>

theorem cached_verdict_stores_twice:
  "map msg_text (get_chat_messages shop_platform (ChatStr ''shop'') 10) =
     [Some ''Big SALE today'', Some ''Big SALE today''] \<and>
   db_messages shop_world = [] \<and>
   map (split_first anchor_open \<circ> row_text)
     (db_messages (pr_world (process_chat shop_platform ''worker'' shop_link stats0 shop_world))) =
     [''Big SALE today'' @ [CHR 0x0A, CHR 0x0A], ''Big SALE today'' @ [CHR 0x0A, CHR 0x0A]] \<and>
   map row_created_at
     (db_messages (pr_world (process_chat shop_platform ''worker'' shop_link stats0 shop_world))) =
     [1000, 1003] \<and>
   check_duplicate_cache (pr_world (process_chat shop_platform ''worker'' shop_link stats0 shop_world))
     = [(''Big SALE today'', True, 1300)] \<and>
   check_duplicate_body shop_platform
     (pr_world (process_chat shop_platform ''worker'' shop_link stats0 shop_world))
     ''Big SALE today'' = False"
  by code_simp

section \<open>Polling one source\<close>

lemma merge_rows_from: "r \<in> set (merge l table) \<Longrightarrow> r = l \<or> r \<in> set table"
  by (auto simp: merge_def split: if_splits)

lemma save_chat_id_frame:
  assumes "save_chat_id l c sn w = (l', w')"
  shows "tl_id l' = tl_id l \<and> tl_last_message_id l' = tl_last_message_id l \<and>
    db_messages w' = db_messages w \<and>
    (\<forall>r\<in>set (db_telegram_links w'). r = l' \<or> r \<in> set (db_telegram_links w))"
proof (cases "truthy_int (tl_chat_id l)")
  case True
  then show ?thesis using assms by (auto simp: save_chat_id_def)
next
  case False
  then have l': "l' = l\<lparr>tl_chat_id := Some c, tl_parser_account := sn\<rparr>"
    and w': "w' = w\<lparr>db_telegram_links := merge l' (db_telegram_links w)\<rparr>"
    using assms by (auto simp: save_chat_id_def Let_def)
  show ?thesis using merge_rows_from [of _ l' "db_telegram_links w"]
    by (auto simp: l' w')
qed

lemma uniform_sleep_frame:
  "db_telegram_links (sleep d (snd (uniform env a b w))) = db_telegram_links w \<and>
   db_messages (sleep d (snd (uniform env a b w))) = db_messages w"
  by (simp add: sleep_def uniform_def)

lemma chat_step_unfold:
  assumes "msg_chat m = Some c"
    and "save_chat_id (ps_link s) (c_id c) (Some sn) (ps_world s) = (link1, w1)"
    and "process_message env m (c_id c)
      ((ps_stats s)\<lparr>message_count := message_count (ps_stats s) + 1\<rparr>) link1 w1 =
        (e, r, stats2, w2)"
  shows "chat_step env sn m s =
    (case e of
       Some x \<Rightarrow> (Some x, s\<lparr>ps_link := link1, ps_stats := stats2, ps_world := w2\<rparr>)
     | None \<Rightarrow>
        (None,
         (if truthy_int r
          then s\<lparr>max_id := max (the r) (max_id s),
                 ps_link := link1\<lparr>tl_last_check_at := Some (clock w2)\<rparr>\<rparr>
          else s\<lparr>ps_link := link1\<rparr>)
         \<lparr>ps_stats := stats2,
          ps_world := sleep (fst (uniform env MIN_DELAY MAX_DELAY w2))
                        (snd (uniform env MIN_DELAY MAX_DELAY w2))\<rparr>))"
  using assms by (simp add: chat_step_def Let_def split_beta split: option.splits)

text \<open>
  Claim C8. Take a fetched message with a chat and a text that is not empty, in the
  loop of \<open>process_chat\<close>. When the duplicate check rejects it, the step raises nothing,
  leaves \<open>max_id\<close> as it was and stores no message. When the check lets it through
  and the categorizer finds no category, the step raises nothing, stores no message and
  sets \<open>max_id\<close> to the larger of the message id and its old value; the id 0, which no
  message of the platform has, would count as no id.
\<close>

theorem duplicate_keeps_cursor:
  assumes "msg_chat m = Some c" and "msg_text m = Some t" and "t \<noteq> []"
    and "save_chat_id (ps_link s) (c_id c) (Some sn) (ps_world s) = (link1, w1)"
    and "check_duplicate env t w1 = (verdict, w2)"
    and "find_message_categories env t link1 w2 = (cats, w3)"
    and "chat_step env sn m s = (raised, s')"
  shows "(\<not> verdict \<longrightarrow>
            raised = None \<and> max_id s' = max_id s \<and>
            db_messages (ps_world s') = db_messages (ps_world s)) \<and>
         (verdict \<and> cats = {} \<and> msg_id m \<noteq> 0 \<longrightarrow>
            raised = None \<and> max_id s' = max (msg_id m) (max_id s) \<and>
            db_messages (ps_world s') = db_messages (ps_world s))"
proof -
  define stats1 where "stats1 = (ps_stats s)\<lparr>message_count := message_count (ps_stats s) + 1\<rparr>"
  note pm = process_message_unfold [OF assms(2,3,5,6), of "c_id c" stats1]
  have m1: "db_messages w1 = db_messages (ps_world s)"
    using save_chat_id_frame [OF assms(4)] by simp
  have m2: "db_messages w2 = db_messages w1"
    using check_duplicate_frame [of env t w1] assms(5) by simp
  have m3: "db_messages w3 = db_messages w2"
    using find_message_categories_frame [of env t link1 w2] assms(6) by simp
  note us = uniform_sleep_frame
  have a: "raised = None \<and> max_id s' = max_id s \<and>
            db_messages (ps_world s') = db_messages (ps_world s)" if "\<not> verdict"
  proof -
    have "process_message env m (c_id c) stats1 link1 w1 = (None, None, stats1, w2)"
      using pm that by simp
    from chat_step_unfold [OF assms(1,4) this [unfolded stats1_def]] assms(7)
    show ?thesis using m1 m2 us by (auto simp: truthy_int_def)
  qed
  have b: "raised = None \<and> max_id s' = max (msg_id m) (max_id s) \<and>
            db_messages (ps_world s') = db_messages (ps_world s)"
    if "verdict" "cats = {}" "msg_id m \<noteq> 0"
  proof -
    have "process_message env m (c_id c) stats1 link1 w1 = (None, Some (msg_id m), stats1, w3)"
      using pm that by simp
    from chat_step_unfold [OF assms(1,4) this [unfolded stats1_def]] assms(7) that(3)
    show ?thesis using m1 m2 m3 us by (auto simp: truthy_int_def)
  qed
  show ?thesis using a b by blast
qed

text \<open>
  A message whose text is already stored leaves the cursor at 10; the message 43,
  which matches no keyword, moves it to 43 and is not stored.
\<close>

theorem duplicate_keeps_cursor_witness:
  "fst (check_duplicate shop_platform ''Big SALE today'' stocked_world) = False \<and>
   max_id (shop_state stocked_world) = 10 \<and>
   max_id (snd (chat_step shop_platform ''worker'' (sale_message 42) (shop_state stocked_world)))
     = 10 \<and>
   fst (check_duplicate shop_platform ''hello world'' shop_world) = True \<and>
   fst (find_message_categories shop_platform ''hello world'' shop_link
      (snd (check_duplicate shop_platform ''hello world'' shop_world))) = {} \<and>
   max_id (snd (chat_step shop_platform ''worker'' hello_message (shop_state shop_world))) = 43 \<and>
   db_messages (ps_world (snd (chat_step shop_platform ''worker'' hello_message
      (shop_state shop_world)))) = []"
proof -
  have sc: "save_chat_id (ps_link (shop_state w)) (c_id shop_chat) (Some ''worker'')
      (ps_world (shop_state w)) = (shop_link, w)" for w
    by (simp add: save_chat_id_def shop_state_def shop_link_def truthy_int_def)
  have m10: "max_id (shop_state w) = 10" for w by (simp add: shop_state_def)
  have d: "fst (check_duplicate shop_platform ''Big SALE today'' stocked_world) = False"
    by code_simp
  have a: "max_id (snd (chat_step shop_platform ''worker'' (sale_message 42)
      (shop_state stocked_world))) = 10"
    using duplicate_keeps_cursor [where m = "sale_message 42" and c = shop_chat
        and t = "''Big SALE today''" and s = "shop_state stocked_world" and sn = "''worker''"
        and env = shop_platform, OF _ _ _ sc prod.collapse [symmetric] prod.collapse [symmetric]
          prod.collapse [symmetric]] d m10
    by (simp add: sale_message_def)
  have v: "fst (check_duplicate shop_platform ''hello world'' shop_world) = True"
    by code_simp
  have c: "fst (find_message_categories shop_platform ''hello world'' shop_link
      (snd (check_duplicate shop_platform ''hello world'' shop_world))) = {}"
    by code_simp
  have w0: "db_messages (ps_world (shop_state shop_world)) = []"
    by (simp add: shop_state_def shop_world_def)
  have b: "max_id (snd (chat_step shop_platform ''worker'' hello_message (shop_state shop_world)))
      = 43 \<and>
    db_messages (ps_world (snd (chat_step shop_platform ''worker'' hello_message
      (shop_state shop_world)))) = []"
    using duplicate_keeps_cursor [where m = hello_message and c = shop_chat
        and t = "''hello world''" and s = "shop_state shop_world" and sn = "''worker''"
        and env = shop_platform, OF _ _ _ sc prod.collapse [symmetric] prod.collapse [symmetric]
          prod.collapse [symmetric]] v c m10 w0
    by (simp add: hello_message_def)
  show ?thesis using d m10 a v c b by simp
qed

text \<open>
  What the loop keeps: \<open>max_id\<close> never goes down, the link object keeps its id and its
  stored cursor, and every row of the table is an old row or the link object as written
  by \<open>save_chat_id\<close>.
\<close>

lemma chat_step_inv:
  assumes "chat_step env sn m s = (raised, s')"
  shows "max_id s \<le> max_id s' \<and>
    tl_id (ps_link s') = tl_id (ps_link s) \<and>
    tl_last_message_id (ps_link s') = tl_last_message_id (ps_link s) \<and>
    (\<forall>r\<in>set (db_telegram_links (ps_world s')).
       r \<in> set (db_telegram_links (ps_world s)) \<or>
       (tl_id r = tl_id (ps_link s) \<and> tl_last_message_id r = tl_last_message_id (ps_link s)))"
proof (cases "msg_chat m")
  case None
  then have "s' = s" using assms by (simp add: chat_step_def)
  then show ?thesis by simp
next
  case (Some c)
  obtain link1 w1 where sc: "save_chat_id (ps_link s) (c_id c) (Some sn) (ps_world s) = (link1, w1)"
    by force
  note fr = save_chat_id_frame [OF sc]
  obtain e r stats2 w2 where pm: "process_message env m (c_id c)
      ((ps_stats s)\<lparr>message_count := message_count (ps_stats s) + 1\<rparr>) link1 w1 = (e, r, stats2, w2)"
    using prod_cases4 by blast
  have l2: "db_telegram_links w2 = db_telegram_links w1"
    using process_message_links [of env m "c_id c"
        "(ps_stats s)\<lparr>message_count := message_count (ps_stats s) + 1\<rparr>" link1 w1] pm
    by simp
  note us = uniform_sleep_frame [of _ env MIN_DELAY MAX_DELAY w2]
  have rows: "\<forall>r\<in>set (db_telegram_links w2).
       r \<in> set (db_telegram_links (ps_world s)) \<or>
       (tl_id r = tl_id (ps_link s) \<and> tl_last_message_id r = tl_last_message_id (ps_link s))"
    using fr l2 by auto
  note cu = chat_step_unfold [OF Some sc pm]
  show ?thesis
  proof (cases e)
    case (Some x)
    then have "s' = s\<lparr>ps_link := link1, ps_stats := stats2, ps_world := w2\<rparr>"
      using assms cu by simp
    then show ?thesis using fr rows by simp
  next
    case None
    show ?thesis
    proof (cases "truthy_int r")
      case True
      then have "s' = s\<lparr>max_id := max (the r) (max_id s),
                 ps_link := link1\<lparr>tl_last_check_at := Some (clock w2)\<rparr>,
                 ps_stats := stats2,
                 ps_world := sleep (fst (uniform env MIN_DELAY MAX_DELAY w2))
                        (snd (uniform env MIN_DELAY MAX_DELAY w2))\<rparr>"
        using assms cu None by simp
      then show ?thesis using fr rows us by simp
    next
      case False
      then have "s' = s\<lparr>ps_link := link1, ps_stats := stats2,
                 ps_world := sleep (fst (uniform env MIN_DELAY MAX_DELAY w2))
                        (snd (uniform env MIN_DELAY MAX_DELAY w2))\<rparr>"
        using assms cu None by simp
      then show ?thesis using fr rows us by simp
    qed
  qed
qed

lemma chat_loop_inv:
  assumes "chat_loop env sn ms s = (raised, s')"
  shows "max_id s \<le> max_id s' \<and>
    tl_id (ps_link s') = tl_id (ps_link s) \<and>
    tl_last_message_id (ps_link s') = tl_last_message_id (ps_link s) \<and>
    (\<forall>r\<in>set (db_telegram_links (ps_world s')).
       r \<in> set (db_telegram_links (ps_world s)) \<or>
       (tl_id r = tl_id (ps_link s) \<and> tl_last_message_id r = tl_last_message_id (ps_link s)))"
  using assms
proof (induction ms arbitrary: s)
  case Nil
  then show ?case by simp
next
  case (Cons m rest)
  define s1 where "s1 = s\<lparr>messages_in_chat := messages_in_chat s + 1\<rparr>"
  have same: "max_id s1 = max_id s" "ps_link s1 = ps_link s" "ps_world s1 = ps_world s"
    by (simp_all add: s1_def)
  show ?case
  proof (cases "messages_in_chat s1 > MAX_MESSAGES_PER_CHAT")
    case True
    then have "s' = s1" using Cons.prems by (simp add: s1_def Let_def)
    then show ?thesis using same by simp
  next
    case False
    obtain e s2 where st: "chat_step env sn m s1 = (e, s2)" by force
    note i1 = chat_step_inv [OF st, unfolded same]
    show ?thesis
    proof (cases e)
      case None
      then have "chat_loop env sn rest s2 = (raised, s')"
        using Cons.prems False st by (simp add: s1_def Let_def)
      from Cons.IH [OF this] i1 show ?thesis by fastforce
    next
      case (Some a)
      then have "s' = s2" using Cons.prems False st by (simp add: s1_def Let_def)
      with i1 show ?thesis by simp
    qed
  qed
qed

lemma poll_try_inv:
  assumes "poll_try env sn chat s = (raised, s')"
  shows "max_id s \<le> max_id s' \<and>
    tl_id (ps_link s') = tl_id (ps_link s) \<and>
    tl_last_message_id (ps_link s') = tl_last_message_id (ps_link s) \<and>
    (\<forall>r\<in>set (db_telegram_links (ps_world s')).
       r \<in> set (db_telegram_links (ps_world s)) \<or>
       (tl_id r = tl_id (ps_link s) \<and> tl_last_message_id r = tl_last_message_id (ps_link s)))"
proof -
  have "s' = s \<or> (\<exists>ms. chat_loop env sn ms s = (raised, s'))"
    using assms
    by (auto simp: poll_try_def split: sum.splits if_splits option.splits)
  then show ?thesis
  proof
    assume "s' = s"
    then show ?thesis by simp
  next
    assume "\<exists>ms. chat_loop env sn ms s = (raised, s')"
    then obtain ms where "chat_loop env sn ms s = (raised, s')" ..
    then show ?thesis by (rule chat_loop_inv)
  qed
qed

lemma process_chat_unfold:
  assumes "extract_chat l = Some chat" "truthy_chat chat"
    and "poll_try env sn chat
      \<lparr>messages_in_chat = 0,
       max_id = (case tl_last_message_id l of None \<Rightarrow> 0 | Some n \<Rightarrow> n),
       ps_link = l, ps_stats = stats, ps_world = w\<rparr> = (raised, s)"
  shows "process_chat env sn l stats w =
    \<lparr>pr_raised = None, pr_link = ps_link s, pr_stats = ps_stats s,
     pr_world = (case raised of
                   Some (FloodWait v) \<Rightarrow> sleep (real_of_int v) (ps_world s)
                 | _ \<Rightarrow> ps_world s),
     pr_finally = Some (clock w, max_id s)\<rparr>"
  using assms by (simp add: process_chat_def Let_def never_awaited_def)

lemma process_chat_early:
  assumes "extract_chat l = None \<or> (\<exists>chat. extract_chat l = Some chat \<and> \<not> truthy_chat chat)"
  shows "process_chat env sn l stats w =
    \<lparr>pr_raised = None, pr_link = l, pr_stats = stats, pr_world = w, pr_finally = None\<rparr>"
  using assms by (auto simp: process_chat_def)


text \<open>
  Claim C2 on the concrete source. Its stored cursor is 10 and the history yields the
  messages 42 and 41. The cursor in memory starts at 10, becomes the maximum 42 and is
  handed to \<open>update_telegram_link_last_check\<close> in the \<open>finally\<close> clause with the time
  1000. That call is not awaited, so nothing stores the maximum: after the poll the row
  of the source holds the cursor 10 and the time 500, as before it.
\<close>

theorem computed_cursor_is_not_stored:
  "map tl_last_message_id (db_telegram_links shop_world) = [Some 10] \<and>
   tl_last_message_id shop_link = Some 10 \<and>
   map msg_id (get_chat_messages shop_platform (ChatStr ''shop'') 10) = [42, 41] \<and>
   pr_finally (process_chat shop_platform ''worker'' shop_link stats0 shop_world) =
     Some (1000, 42) \<and>
   length (db_messages (pr_world (process_chat shop_platform ''worker'' shop_link stats0
     shop_world))) = 2 \<and>
   map tl_last_message_id (db_telegram_links
     (pr_world (process_chat shop_platform ''worker'' shop_link stats0 shop_world))) = [Some 10] \<and>
   map tl_last_check_at (db_telegram_links
     (pr_world (process_chat shop_platform ''worker'' shop_link stats0 shop_world))) = [Some 500]"
  by code_simp

text \<open>
  With a chat id bound, \<open>save_chat_id\<close> writes nothing, so the loop leaves the table
  of sources alone.
\<close>

lemma chat_step_bound:
  assumes "chat_step env sn m s = (raised, s')" and "truthy_int (tl_chat_id (ps_link s))"
  shows "truthy_int (tl_chat_id (ps_link s')) \<and>
    db_telegram_links (ps_world s') = db_telegram_links (ps_world s)"
proof (cases "msg_chat m")
  case None
  then have "s' = s" using assms by (simp add: chat_step_def)
  then show ?thesis using assms(2) by simp
next
  case (Some c)
  have sc: "save_chat_id (ps_link s) (c_id c) (Some sn) (ps_world s) = (ps_link s, ps_world s)"
    using assms(2) by (simp add: save_chat_id_def)
  obtain e r stats2 w2 where pm: "process_message env m (c_id c)
      ((ps_stats s)\<lparr>message_count := message_count (ps_stats s) + 1\<rparr>) (ps_link s) (ps_world s)
        = (e, r, stats2, w2)"
    using prod_cases4 by blast
  have l2: "db_telegram_links w2 = db_telegram_links (ps_world s)"
    using process_message_links [of env m "c_id c"
        "(ps_stats s)\<lparr>message_count := message_count (ps_stats s) + 1\<rparr>" "ps_link s" "ps_world s"] pm
    by simp
  note us = uniform_sleep_frame [of _ env MIN_DELAY MAX_DELAY w2]
  note cu = chat_step_unfold [OF Some sc pm]
  show ?thesis
  proof (cases e)
    case (Some x)
    then have "s' = s\<lparr>ps_link := ps_link s, ps_stats := stats2, ps_world := w2\<rparr>"
      using assms cu by simp
    then show ?thesis using assms(2) l2 by simp
  next
    case None
    show ?thesis
    proof (cases "truthy_int r")
      case True
      then have "s' = s\<lparr>max_id := max (the r) (max_id s),
                 ps_link := (ps_link s)\<lparr>tl_last_check_at := Some (clock w2)\<rparr>,
                 ps_stats := stats2,
                 ps_world := sleep (fst (uniform env MIN_DELAY MAX_DELAY w2))
                        (snd (uniform env MIN_DELAY MAX_DELAY w2))\<rparr>"
        using assms cu None by simp
      then show ?thesis using assms(2) l2 us by simp
    next
      case False
      then have "s' = s\<lparr>ps_link := ps_link s, ps_stats := stats2,
                 ps_world := sleep (fst (uniform env MIN_DELAY MAX_DELAY w2))
                        (snd (uniform env MIN_DELAY MAX_DELAY w2))\<rparr>"
        using assms cu None by simp
      then show ?thesis using assms(2) l2 us by simp
    qed
  qed
qed

lemma chat_loop_bound:
  assumes "chat_loop env sn ms s = (raised, s')" and "truthy_int (tl_chat_id (ps_link s))"
  shows "truthy_int (tl_chat_id (ps_link s')) \<and>
    db_telegram_links (ps_world s') = db_telegram_links (ps_world s)"
  using assms
proof (induction ms arbitrary: s)
  case Nil
  then show ?case by simp
next
  case (Cons m rest)
  define s1 where "s1 = s\<lparr>messages_in_chat := messages_in_chat s + 1\<rparr>"
  have same: "ps_link s1 = ps_link s" "ps_world s1 = ps_world s"
    by (simp_all add: s1_def)
  show ?case
  proof (cases "messages_in_chat s1 > MAX_MESSAGES_PER_CHAT")
    case True
    then have "s' = s1" using Cons.prems by (simp add: s1_def Let_def)
    then show ?thesis using same Cons.prems(2) by simp
  next
    case False
    obtain e s2 where st: "chat_step env sn m s1 = (e, s2)" by force
    have b1: "truthy_int (tl_chat_id (ps_link s2))"
      and b2: "db_telegram_links (ps_world s2) = db_telegram_links (ps_world s)"
      using chat_step_bound [OF st] Cons.prems(2) same by simp_all
    show ?thesis
    proof (cases e)
      case None
      then have "chat_loop env sn rest s2 = (raised, s')"
        using Cons.prems False st by (simp add: s1_def Let_def)
      from Cons.IH [OF this b1] b2 show ?thesis by simp
    next
      case (Some a)
      then have "s' = s2" using Cons.prems False st by (simp add: s1_def Let_def)
      with b1 b2 show ?thesis by simp
    qed
  qed
qed

lemma poll_try_bound:
  assumes "poll_try env sn chat s = (raised, s')" and "truthy_int (tl_chat_id (ps_link s))"
  shows "db_telegram_links (ps_world s') = db_telegram_links (ps_world s)"
proof -
  have "s' = s \<or> (\<exists>ms. chat_loop env sn ms s = (raised, s'))"
    using assms(1)
    by (auto simp: poll_try_def split: sum.splits if_splits option.splits)
  then show ?thesis
  proof
    assume "s' = s"
    then show ?thesis by simp
  next
    assume "\<exists>ms. chat_loop env sn ms s = (raised, s')"
    then obtain ms where "chat_loop env sn ms s = (raised, s')" ..
    from chat_loop_bound [OF this assms(2)] show ?thesis by simp
  qed
qed

text \<open>
  Claim C1 on the code. \<open>process_chat\<close> lets no exception out. But the call of
  \<open>update_telegram_link_last_check\<close> in its \<open>finally\<close> clause is not awaited, so its
  body never runs: for every source with a bound chat id and every poll, whatever
  happens in it, the table of sources after the poll is the table before it. Neither the
  cursor nor the time of the poll is written.
\<close>

theorem poll_leaves_the_source_row:
  assumes "\<exists>n. tl_chat_id l = Some n \<and> n \<noteq> 0"
  shows "pr_raised (process_chat env sn l stats w) = None \<and>
         db_telegram_links (pr_world (process_chat env sn l stats w)) = db_telegram_links w"
proof (cases "extract_chat l = None \<or> (\<exists>chat. extract_chat l = Some chat \<and> \<not> truthy_chat chat)")
  case True
  then show ?thesis using process_chat_early [of l env sn stats w] by simp
next
  case False
  then obtain chat where ch: "extract_chat l = Some chat" "truthy_chat chat" by auto
  define start where "start = \<lparr>messages_in_chat = 0,
       max_id = (case tl_last_message_id l of None \<Rightarrow> 0 | Some n \<Rightarrow> n),
       ps_link = l, ps_stats = stats, ps_world = w\<rparr>"
  obtain raised s where pt: "poll_try env sn chat start = (raised, s)" by force
  have tr: "truthy_int (tl_chat_id (ps_link start))"
    using assms by (auto simp: start_def truthy_int_def)
  have "db_telegram_links (ps_world s) = db_telegram_links w"
    using poll_try_bound [OF pt tr] by (simp add: start_def)
  then show ?thesis
    unfolding process_chat_unfold [OF ch pt [unfolded start_def]]
    by (simp add: sleep_def split: option.splits error.splits)
qed

text \<open>
  The poll of the concrete source processes the messages 42 and 41 and reaches its
  \<open>finally\<close> clause with the cursor 42 and the time 1000; the row still holds the
  cursor 10 and the time 500.
\<close>

theorem poll_leaves_the_source_row_witness:
  "tl_chat_id shop_link = Some (- 1001) \<and>
   pr_finally (process_chat shop_platform ''worker'' shop_link stats0 shop_world) = Some (1000, 42) \<and>
   map tl_last_message_id (db_telegram_links shop_world) = [Some 10] \<and>
   map tl_last_check_at (db_telegram_links shop_world) = [Some 500] \<and>
   db_telegram_links (pr_world (process_chat shop_platform ''worker'' shop_link stats0 shop_world)) =
     db_telegram_links shop_world"
proof -
  have c: "tl_chat_id shop_link = Some (- 1001)" by (simp add: shop_link_def)
  then have "\<exists>n. tl_chat_id shop_link = Some n \<and> n \<noteq> 0" by simp
  from poll_leaves_the_source_row [OF this, of shop_platform "''worker''" stats0 shop_world]
  have same: "db_telegram_links
      (pr_world (process_chat shop_platform ''worker'' shop_link stats0 shop_world)) =
     db_telegram_links shop_world" by simp
  have f: "pr_finally (process_chat shop_platform ''worker'' shop_link stats0 shop_world)
      = Some (1000, 42)" by code_simp
  have r: "map tl_last_message_id (db_telegram_links shop_world) = [Some 10] \<and>
   map tl_last_check_at (db_telegram_links shop_world) = [Some 500]"
    by (simp add: shop_world_def shop_link_def)
  show ?thesis using c same f r by simp
qed

section \<open>The scheduler loop\<close>







end
